theory Spec2Isabelle
  imports Main "HOL-Library.Word"
begin

unbundle bit_operations_syntax

section \<open>The restore interpreter of wal-g (package postgres, FileTarInterpreter)\<close>

text \<open>
  The Go source extracts the entries of a tar stream into a data directory. Its
  functions act on the file system, on the loggers and on the process itself
  (\<^verbatim>\<open>Fatalf\<close>). The embedding threads a state record through every function:
  the files on disk, the list of operating-system calls made so far, and the text
  written to the warning logger. Whether a call fails for a reason outside the
  model (permissions, a full disk, a broken reader) is read from an environment
  record, so each function is a total, executable function of its arguments, the
  environment and the state. The lines the source writes to the debug logger are not
  part of the state, and a message is logged as the text passed to the logger.
\<close>

subsection \<open>Paths (Go packages path, path/filepath and strings, Unix separators)\<close>

type_synonym byte = "8 word"
type_synonym path = string

text \<open>\<^verbatim>\<open>strings.Split(p, "/")\<close>: the pieces between separators, always at least one.\<close>

fun split_slash :: "string \<Rightarrow> string list" where
  "split_slash [] = [[]]"
| "split_slash (c # cs) =
     (if c = CHR ''/'' then [] # split_slash cs
      else (case split_slash cs of
              [] \<Rightarrow> [[c]]
            | x # xs \<Rightarrow> (c # x) # xs))"

fun join_slash :: "string list \<Rightarrow> string" where
  "join_slash [] = []"
| "join_slash [x] = x"
| "join_slash (x # y # ys) = x @ ''/'' @ join_slash (y # ys)"

text \<open>
  The element loop of \<^verbatim>\<open>path.Clean\<close>: empty elements and \<^verbatim>\<open>.\<close> are dropped, \<^verbatim>\<open>..\<close>
  removes the element before it, is dropped at the root, and is kept at the front of
  a relative path. The second argument is the output so far, last element first.
\<close>

fun clean_elems :: "bool \<Rightarrow> string list \<Rightarrow> string list \<Rightarrow> string list" where
  "clean_elems rooted out [] = rev out"
| "clean_elems rooted out (c # cs) =
     (if c = [] \<or> c = ''.'' then clean_elems rooted out cs
      else if c = ''..'' then
        (case out of
           [] \<Rightarrow> if rooted then clean_elems rooted [] cs
                 else clean_elems rooted [''..''] cs
         | d # ds \<Rightarrow> if d = ''..'' then clean_elems rooted (''..'' # out) cs
                     else clean_elems rooted ds cs)
      else clean_elems rooted (c # out) cs)"

definition is_rooted :: "string \<Rightarrow> bool" where
  "is_rooted p = (case p of [] \<Rightarrow> False | c # _ \<Rightarrow> c = CHR ''/'')"

definition path_Clean :: "string \<Rightarrow> string" where
  "path_Clean p =
     (if p = [] then ''.''
      else let s = (if is_rooted p then ''/'' else []) @
                   join_slash (clean_elems (is_rooted p) [] (split_slash p))
           in if s = [] then ''.'' else s)"

text \<open>
  \<^verbatim>\<open>path.Join(a, b)\<close> for two elements: empty elements are ignored, the rest are joined
  with a slash and cleaned; the join of two empty strings is the empty string.
\<close>

definition path_Join :: "string \<Rightarrow> string \<Rightarrow> string" where
  "path_Join a b =
     (if a = [] \<and> b = [] then []
      else if a = [] then path_Clean b
      else path_Clean (a @ ''/'' @ b))"

text \<open>
  \<^verbatim>\<open>filepath.Base\<close>: trailing slashes are stripped, then everything up to the last
  slash; the base of the empty string is \<^verbatim>\<open>.\<close>, that of a string of slashes is \<^verbatim>\<open>/\<close>.
\<close>

definition strip_trailing_slashes :: "string \<Rightarrow> string" where
  "strip_trailing_slashes p = rev (dropWhile (\<lambda>c. c = CHR ''/'') (rev p))"

definition filepath_Base :: "string \<Rightarrow> string" where
  "filepath_Base p =
     (if p = [] then ''.''
      else let q = rev (takeWhile (\<lambda>c. c \<noteq> CHR ''/'') (rev (strip_trailing_slashes p)))
           in if q = [] then ''/'' else q)"

definition strings_HasSuffix :: "string \<Rightarrow> string \<Rightarrow> bool" where
  "strings_HasSuffix s suffix =
     (length suffix \<le> length s \<and> drop (length s - length suffix) s = suffix)"

definition strings_TrimSuffix :: "string \<Rightarrow> string \<Rightarrow> string" where
  "strings_TrimSuffix s suffix =
     (if strings_HasSuffix s suffix then take (length s - length suffix) s else s)"

text \<open>
  The directories \<^verbatim>\<open>os.MkdirAll\<close> walks through for a cleaned path: the path itself
  and each of its ancestors, shortest first. The root and the current directory are
  not listed; they always exist.
\<close>

fun prefixes_from :: "string \<Rightarrow> string list \<Rightarrow> string list" where
  "prefixes_from acc [] = []"
| "prefixes_from acc (e # es) =
     (let d = (if acc = [] \<or> acc = ''/'' then acc @ e else acc @ ''/'' @ e)
      in d # prefixes_from d es)"

definition dir_chain :: "path \<Rightarrow> path list" where
  "dir_chain p =
     (let q = path_Clean p
      in if q = ''.'' \<or> q = ''/'' then []
         else prefixes_from (if is_rooted q then ''/'' else [])
                (filter (\<lambda>e. e \<noteq> []) (split_slash q)))"

subsection \<open>The file system, the calls made on it, and errors\<close>

text \<open>
  A node of the file system, keyed by its cleaned path. A regular file has its bytes
  and its mode bits; a link records the name it was created to point at. Links are
  not followed: a call on a path that leads through a symbolic link fails in the
  model. Relative paths are keys as they stand; the current directory always exists.
\<close>

datatype node =
    Regular (content: "byte list") (perm: "32 word")
  | Directory "32 word"
  | Hardlink path
  | Symlink path

text \<open>
  The operating-system calls the code makes, with the arguments the code passes. The
  state keeps them in order; the environment says which of them fail.
\<close>

datatype syscall =
    SysCopy path
  | SysRemove path
  | SysFchmod path "32 word"
  | SysFsync path
  | SysClose path
  | SysMkdirAll path "32 word"
  | SysOpenFile path
  | SysWriteAt path nat
  | SysChmod path "32 word"
  | SysLink path path
  | SysSymlink path path
  | SysSync

text \<open>
  Go error values: the error of a failed call, a reader's error, a malformed
  increment, \<^verbatim>\<open>errors.Wrap\<close> and \<^verbatim>\<open>errors.Wrapf\<close> around a cause, and
  \<^verbatim>\<open>errors.Errorf\<close> with a numeric argument.
\<close>

datatype error =
    OsError syscall
  | ReadError
  | BadIncrement
  | Wrap error string
  | Wrapf error string string
  | Errorf string nat

text \<open>A function either returns its \<^verbatim>\<open>error\<close> (\<open>None\<close> is \<^verbatim>\<open>nil\<close>) or the process
  is ended by \<^verbatim>\<open>tracelog.ErrorLogger.Fatalf\<close>.\<close>

datatype outcome = Returns "error option" | Exits

record state =
  files :: "path \<rightharpoonup> node"
  calls :: "syscall list"
  warnings :: "string list"

text \<open>
  The environment: \<open>fails c\<close> makes the call \<open>c\<close> fail, \<open>wlimit\<close> bounds the bytes a
  file accepts before a write fails, \<open>sync_errno\<close> is the error number the
  \<^verbatim>\<open>SYS_SYNC\<close> system call returns.
\<close>

record env =
  fails :: "syscall \<Rightarrow> bool"
  wlimit :: "nat option"
  sync_errno :: nat

text \<open>A content reader delivers \<open>rdata\<close> and then ends, with an error when \<open>rerr\<close>.\<close>

record reader =
  rdata :: "byte list"
  rerr :: bool

text \<open>An open \<^verbatim>\<open>*os.File\<close>: the name it was opened with and its write offset.\<close>

record os_file =
  fname :: path
  foffset :: nat

definition errors_Wrap :: "error option \<Rightarrow> string \<Rightarrow> error option" where
  "errors_Wrap err msg = (case err of None \<Rightarrow> None | Some e \<Rightarrow> Some (Wrap e msg))"

definition errors_Wrapf :: "error option \<Rightarrow> string \<Rightarrow> string \<Rightarrow> error option" where
  "errors_Wrapf err fmt arg = (case err of None \<Rightarrow> None | Some e \<Rightarrow> Some (Wrapf e fmt arg))"

definition called :: "syscall \<Rightarrow> state \<Rightarrow> state" where
  "called c st = st\<lparr>calls := calls st @ [c]\<rparr>"

definition put_node :: "path \<Rightarrow> node \<Rightarrow> state \<Rightarrow> state" where
  "put_node p n st = st\<lparr>files := (files st)(path_Clean p \<mapsto> n)\<rparr>"

text \<open>
  A positioned write (\<^verbatim>\<open>pwrite\<close>): the bytes replace what is at the offset; a write
  past the end fills the gap with zero bytes; an empty write changes nothing.
\<close>

definition write_at :: "byte list \<Rightarrow> nat \<Rightarrow> byte list \<Rightarrow> byte list" where
  "write_at c off bs =
     (if bs = [] then c
      else take off (c @ replicate (off - length c) 0) @ bs @ drop (off + length bs) c)"

text \<open>
  \<^verbatim>\<open>io.Copy(localFile, fileReader)\<close>: the reader's bytes are written at the file's
  offset, as many as the file accepts. The copy fails when the file is not a regular
  file any more, when the file accepts fewer bytes than the reader delivers, or when
  the reader ends with an error.
\<close>

definition io_Copy :: "env \<Rightarrow> os_file \<Rightarrow> reader \<Rightarrow> state \<Rightarrow> error option \<times> state" where
  "io_Copy e f r st =
     (let st1 = called (SysCopy (fname f)) st;
          n = (case wlimit e of None \<Rightarrow> length (rdata r) | Some k \<Rightarrow> min k (length (rdata r)))
      in case files st (path_Clean (fname f)) of
           Some (Regular c m) \<Rightarrow>
             (if n < length (rdata r) \<or> fails e (SysCopy (fname f))
                then Some (OsError (SysCopy (fname f)))
              else if rerr r then Some ReadError
              else None,
              put_node (fname f) (Regular (write_at c (foffset f) (take n (rdata r))) m) st1)
         | _ \<Rightarrow> (Some (OsError (SysCopy (fname f))), st1))"

text \<open>\<^verbatim>\<open>os.Remove\<close>: fails on a missing path, otherwise the path is gone.\<close>

definition os_Remove :: "env \<Rightarrow> path \<Rightarrow> state \<Rightarrow> error option \<times> state" where
  "os_Remove e p st =
     (let st1 = called (SysRemove p) st
      in if fails e (SysRemove p) \<or> files st (path_Clean p) = None
         then (Some (OsError (SysRemove p)), st1)
         else (None, st1\<lparr>files := (files st)(path_Clean p := None)\<rparr>))"

text \<open>
  \<^verbatim>\<open>syscallMode\<close> of Go's package os: what a \<^verbatim>\<open>FileMode\<close> becomes when it is handed to
  the operating system. Only the nine permission bits (0777, that is 511) pass, and
  Go's own bits \<^verbatim>\<open>ModeSetuid\<close> (bit 23), \<^verbatim>\<open>ModeSetgid\<close> (bit 22) and \<^verbatim>\<open>ModeSticky\<close>
  (bit 20) become the Unix bits 04000, 02000 and 01000. Every other bit is dropped.
\<close>

definition syscallMode :: "32 word \<Rightarrow> 32 word" where
  "syscallMode i =
     (i AND 511) OR (if bit i 23 then 2048 else 0) OR (if bit i 22 then 1024 else 0)
       OR (if bit i 20 then 512 else 0)"

text \<open>\<^verbatim>\<open>(*os.File).Chmod\<close>: sets the mode bits of the open regular file to
  \<open>syscallMode\<close> of the mode passed.\<close>

definition file_Chmod :: "env \<Rightarrow> os_file \<Rightarrow> 32 word \<Rightarrow> state \<Rightarrow> error option \<times> state" where
  "file_Chmod e f m st =
     (let c = SysFchmod (fname f) m; st1 = called c st
      in case files st (path_Clean (fname f)) of
           Some (Regular bs _) \<Rightarrow>
             if fails e c then (Some (OsError c), st1)
             else (None, put_node (fname f) (Regular bs (syscallMode m)) st1)
         | _ \<Rightarrow> (Some (OsError c), st1))"

text \<open>\<^verbatim>\<open>(*os.File).Sync\<close>: the fsync of one file; it changes no content.\<close>

definition file_Sync :: "env \<Rightarrow> os_file \<Rightarrow> state \<Rightarrow> error option \<times> state" where
  "file_Sync e f st =
     (let c = SysFsync (fname f)
      in (if fails e c then Some (OsError c) else None, called c st))"

text \<open>\<^verbatim>\<open>utility.LoggedClose\<close>: closes the file; a failure is only logged.\<close>

definition LoggedClose :: "os_file \<Rightarrow> state \<Rightarrow> state" where
  "LoggedClose f st = called (SysClose (fname f)) st"

text \<open>
  \<^verbatim>\<open>os.MkdirAll(p, perm)\<close>: when the path is a directory already, nothing happens and
  there is no error. Otherwise every missing directory on the way is created with
  \<open>syscallMode\<close> of the mode passed; a node on the way that is not a directory is an
  error.
\<close>

definition is_dir :: "state \<Rightarrow> path \<Rightarrow> bool" where
  "is_dir st p = (case files st p of Some (Directory _) \<Rightarrow> True | _ \<Rightarrow> False)"

text \<open>
  A new name can be created only in a directory that exists. The parent of a path is
  the last but one of its directory chain; the root and the current directory, which
  the chain leaves out, always exist.
\<close>

definition parent_exists :: "state \<Rightarrow> path \<Rightarrow> bool" where
  "parent_exists st p =
     (case butlast (dir_chain p) of
        [] \<Rightarrow> True
      | d # ds \<Rightarrow> is_dir st (last (d # ds)))"

definition os_MkdirAll :: "env \<Rightarrow> path \<Rightarrow> 32 word \<Rightarrow> state \<Rightarrow> error option \<times> state" where
  "os_MkdirAll e p m st =
     (let c = SysMkdirAll p m; st1 = called c st; ds = dir_chain p
      in if is_dir st (path_Clean p) then (None, st1)
         else if fails e c \<or> list_ex (\<lambda>d. files st d \<noteq> None \<and> \<not> is_dir st d) ds
           then (Some (OsError c), st1)
         else (None, st1\<lparr>files := fold (\<lambda>d fs. if fs d = None
                                                 then fs(d \<mapsto> Directory (syscallMode m)) else fs)
                                       ds (files st)\<rparr>))"

text \<open>
  \<^verbatim>\<open>os.OpenFile(p, O_WRONLY|O_CREATE|O_TRUNC, 0666)\<close>: an existing regular file is
  emptied and keeps its mode; a missing one is created empty with mode 0666 (438),
  which needs its parent directory to exist; any other node is an error. The handle
  starts at offset 0.
\<close>

definition os_OpenFile :: "env \<Rightarrow> path \<Rightarrow> state \<Rightarrow> (error + os_file) \<times> state" where
  "os_OpenFile e p st =
     (let c = SysOpenFile p; st1 = called c st
      in if fails e c then (Inl (OsError c), st1)
         else case files st (path_Clean p) of
                None \<Rightarrow>
                  if parent_exists st p
                  then (Inr \<lparr>fname = p, foffset = 0\<rparr>, put_node p (Regular [] 438) st1)
                  else (Inl (OsError c), st1)
              | Some (Regular _ m) \<Rightarrow> (Inr \<lparr>fname = p, foffset = 0\<rparr>, put_node p (Regular [] m) st1)
              | Some _ \<Rightarrow> (Inl (OsError c), st1))"

text \<open>\<^verbatim>\<open>os.Chmod\<close> on a path: sets the mode bits of a file or directory to
  \<open>syscallMode\<close> of the mode passed.\<close>

definition os_Chmod :: "env \<Rightarrow> path \<Rightarrow> 32 word \<Rightarrow> state \<Rightarrow> error option \<times> state" where
  "os_Chmod e p m st =
     (let c = SysChmod p m; st1 = called c st
      in if fails e c then (Some (OsError c), st1)
         else case files st (path_Clean p) of
                Some (Regular bs _) \<Rightarrow> (None, put_node p (Regular bs (syscallMode m)) st1)
              | Some (Directory _) \<Rightarrow> (None, put_node p (Directory (syscallMode m)) st1)
              | _ \<Rightarrow> (Some (OsError c), st1))"

text \<open>
  \<^verbatim>\<open>os.Link(oldname, newname)\<close> and \<^verbatim>\<open>os.Symlink(oldname, newname)\<close>: both fail when
  \<open>newname\<close> exists already or when the parent directory of \<open>newname\<close> does not
  exist; a hard link also needs \<open>oldname\<close> to exist. On success the new node records
  \<open>oldname\<close>, the name the link points at.
\<close>

definition os_Link :: "env \<Rightarrow> path \<Rightarrow> path \<Rightarrow> state \<Rightarrow> error option \<times> state" where
  "os_Link e oldname newname st =
     (let c = SysLink oldname newname; st1 = called c st
      in if fails e c \<or> files st (path_Clean newname) \<noteq> None
            \<or> \<not> parent_exists st newname
            \<or> files st (path_Clean oldname) = None
         then (Some (OsError c), st1)
         else (None, put_node newname (Hardlink oldname) st1))"

definition os_Symlink :: "env \<Rightarrow> path \<Rightarrow> path \<Rightarrow> state \<Rightarrow> error option \<times> state" where
  "os_Symlink e oldname newname st =
     (let c = SysSymlink oldname newname; st1 = called c st
      in if fails e c \<or> files st (path_Clean newname) \<noteq> None
            \<or> \<not> parent_exists st newname
         then (Some (OsError c), st1)
         else (None, put_node newname (Symlink oldname) st1))"

text \<open>\<^verbatim>\<open>unix.Syscall(unix.SYS_SYNC, 0, 0, 0)\<close>: returns the error number.\<close>

definition unix_Sync :: "env \<Rightarrow> state \<Rightarrow> nat \<times> state" where
  "unix_Sync e st = (sync_errno e, called SysSync st)"

subsection \<open>Configuration and the file sync mode\<close>

text \<open>
  Modelled from the spec: the constants \<^verbatim>\<open>internal.DEFAULT\<close>, \<^verbatim>\<open>internal.GLOBAL\<close> and
  \<^verbatim>\<open>internal.DISABLED\<close> are not in the source files; the spec gives the mode as an
  enumeration of Default, Global and Disabled. A configured string that is none of
  the three is \<open>OtherMode\<close>.
\<close>

datatype TarFsyncMode = DEFAULT | GLOBAL | DISABLED | OtherMode string

text \<open>
  What the code reads from viper: the string of the mode setting, and the deprecated
  boolean, \<open>None\<close> when \<^verbatim>\<open>viper.IsSet\<close> is false. \<^verbatim>\<open>viper.GetBool\<close> of an unset key is
  false.
\<close>

record config =
  mode_setting :: TarFsyncMode
  disable_fsync :: "bool option"

definition viper_IsSet :: "bool option \<Rightarrow> bool" where
  "viper_IsSet v = (v \<noteq> None)"

definition viper_GetBool :: "bool option \<Rightarrow> bool" where
  "viper_GetBool v = (case v of None \<Rightarrow> False | Some b \<Rightarrow> b)"

text \<open>
  The texts that \<^verbatim>\<open>fmt.Sprintf\<close> puts into the two messages: the names of the two
  settings and the text of \<^verbatim>\<open>internal.DISABLED\<close>. Their values are not in the source
  files, so they are parameters.
\<close>

record names =
  TarFsyncModeName :: string
  TarDisableFsyncSettingName :: string
  DisabledText :: string

definition deprecatedFileSyncMessage :: "names \<Rightarrow> string" where
  "deprecatedFileSyncMessage k =
     ''You are using deprecated functionality that uses an inefficient fsync-for-every-file logic.'' @
     [CHR 0x0A] @ ''It will be removed in next major version.'' @
     [CHR 0x0A] @ ''Please use file sync mode using environment variable '' @ TarFsyncModeName k @
     '' instead of using '' @ TarDisableFsyncSettingName k @ ''.'' @ [CHR 0x0A]"

definition fallingBackFileSyncMessage :: "names \<Rightarrow> string" where
  "fallingBackFileSyncMessage k = ''Falling back to '' @ DisabledText k @ '' file sync mode.''"

definition warn :: "string \<Rightarrow> state \<Rightarrow> state" where
  "warn msg st = st\<lparr>warnings := warnings st @ [msg]\<rparr>"

definition getFileSyncMode :: "names \<Rightarrow> config \<Rightarrow> state \<Rightarrow> TarFsyncMode \<times> state" where
  "getFileSyncMode k cfg st =
     (let fsyncMode = mode_setting cfg
      in if viper_IsSet (disable_fsync cfg) then
           (let st1 = warn (deprecatedFileSyncMessage k) st
            in if fsyncMode = DEFAULT \<and> viper_GetBool (disable_fsync cfg)
               then (DISABLED, warn (fallingBackFileSyncMessage k) st1)
               else (fsyncMode, st1))
         else (fsyncMode, st))"

definition OnInterpretFinish :: "names \<Rightarrow> config \<Rightarrow> env \<Rightarrow> state \<Rightarrow> error option \<times> state" where
  "OnInterpretFinish k cfg e st =
     (case getFileSyncMode k cfg st of
        (fileSyncMode, st1) \<Rightarrow>
          if fileSyncMode = GLOBAL \<or> fileSyncMode = DEFAULT then
            (case unix_Sync e st1 of
               (err, st2) \<Rightarrow>
                 if err \<noteq> 0
                 then (Some (Errorf ''FileTarInterpreter: global fsync failed with error code %d'' err), st2)
                 else (None, st2))
          else (None, st1))"

subsection \<open>Archive entries and the interpreter\<close>

text \<open>
  Go's \<^verbatim>\<open>tar.Header\<close>: the entry's type flag, its name, the target name of a link
  entry (\<^verbatim>\<open>Linkname\<close>, which archive/tar documents as valid for \<^verbatim>\<open>TypeLink\<close> and
  \<^verbatim>\<open>TypeSymlink\<close>) and its mode. The fields no function embedded here could depend
  on (size, owner, times) are left out. The type flags are the constants of Go's
  archive/tar.
\<close>

record header =
  Typeflag :: char
  Name :: string
  Linkname :: string
  Mode :: "64 word"

definition TypeReg :: char where "TypeReg = CHR ''0''"
definition TypeRegA :: char where "TypeRegA = CHR 0x00"
definition TypeLink :: char where "TypeLink = CHR ''1''"
definition TypeSymlink :: char where "TypeSymlink = CHR ''2''"
definition TypeDir :: char where "TypeDir = CHR ''5''"

text \<open>\<^verbatim>\<open>os.FileMode(header.Mode)\<close>: the conversion of an int64 to a uint32.\<close>

definition os_FileMode :: "64 word \<Rightarrow> 32 word" where
  "os_FileMode m = ucast m"

text \<open>
  Modelled from the spec: the types \<^verbatim>\<open>BackupSentinelDto\<close> and \<^verbatim>\<open>FilesMetadataDto\<close> are
  not in the source files. The spec gives the backup descriptor a boolean saying
  whether the backup is incremental, and the metadata index a mapping from entry
  name to a description holding \<open>IsIncremented\<close>.
\<close>

record BackupSentinelDto =
  IsIncremental :: bool

record BackupFileDescription =
  IsIncremented :: bool

record FilesMetadataDto =
  Files :: "string \<rightharpoonup> BackupFileDescription"

text \<open>
  \<open>FilesToUnwrap\<close> is a Go map that may be \<^verbatim>\<open>nil\<close>: \<open>None\<close> is the nil map, and a key
  is present when the map gives it a value, true or false. The field \<^verbatim>\<open>UnwrapResult\<close>
  of the Go struct is not read by any function embedded here and is left out.
\<close>

record FileTarInterpreter =
  DBDataDirectory :: string
  Sentinel :: BackupSentinelDto
  FilesMetadata :: FilesMetadataDto
  FilesToUnwrap :: "(string \<rightharpoonup> bool) option"
  createNewIncrementalFiles :: bool

subsection \<open>The full-file write\<close>

definition WriteLocalFile :: "env \<Rightarrow> reader \<Rightarrow> header \<Rightarrow> os_file \<Rightarrow> bool \<Rightarrow> state \<Rightarrow> outcome \<times> state" where
  "WriteLocalFile e fileReader hdr localFile fsync st =
     (case io_Copy e localFile fileReader st of
        (Some err, st1) \<Rightarrow>
          (case os_Remove e (fname localFile) st1 of
             (Some err1, st2) \<Rightarrow> (Exits, st2)
           | (None, st2) \<Rightarrow> (Returns (errors_Wrap (Some err) ''Interpret: copy failed''), st2))
      | (None, st1) \<Rightarrow>
          (case file_Chmod e localFile (os_FileMode (Mode hdr)) st1 of
             (Some err, st2) \<Rightarrow> (Returns (errors_Wrap (Some err) ''Interpret: chmod failed''), st2)
           | (None, st2) \<Rightarrow>
               if fsync then
                 (case file_Sync e localFile st2 of
                    (err, st3) \<Rightarrow> (Returns (errors_Wrap err ''Interpret: fsync failed''), st3))
               else (Returns None, st2)))"

subsection \<open>Parent directories\<close>

definition PrepareDirs :: "env \<Rightarrow> string \<Rightarrow> string \<Rightarrow> state \<Rightarrow> error option \<times> state" where
  "PrepareDirs e fileName targetPath st =
     (if fileName = targetPath then (None, st)
      else let base = filepath_Base fileName;
               dir = strings_TrimSuffix targetPath base
           in os_MkdirAll e dir 493 st)"

subsection \<open>Applying an increment\<close>

text \<open>
  The increment stream as the spec describes it: pairs of a block number and the
  bytes of that block, over a fixed block size, and the final size of the file. The
  framing of the stream on the wire is an external contract, so the decoder from
  bytes and the block size are parameters.
\<close>

record increment =
  finalSize :: nat
  blocks :: "(nat \<times> byte list) list"

record wire_format =
  blockSize :: nat
  decode :: "byte list \<Rightarrow> increment option"

text \<open>The loop over the changed blocks: each is written at \<open>blockNumber * blockSize\<close>;
  the first failing write ends the loop.\<close>

fun write_blocks :: "env \<Rightarrow> nat \<Rightarrow> path \<Rightarrow> (nat \<times> byte list) list \<Rightarrow> state \<Rightarrow> error option \<times> state" where
  "write_blocks e S p [] st = (None, st)"
| "write_blocks e S p ((n, b) # bs) st =
     (let c = SysWriteAt p (n * S); st1 = called c st
      in case files st (path_Clean p) of
           Some (Regular bytes m) \<Rightarrow>
             if fails e c then (Some (OsError c), st1)
             else write_blocks e S p bs (put_node p (Regular (write_at bytes (n * S) b) m) st1)
         | _ \<Rightarrow> (Some (OsError c), st1))"

text \<open>
  Modelled from the spec: \<^verbatim>\<open>ApplyFileIncrement\<close> is called by the source but is not in
  the source files. Following section 4.3 of the spec: the reader is decoded as an
  increment stream of blocks of the fixed block size. When create-new-incremental-files
  is true the target file is allocated at its final size, zero-filled (a file that
  exists is replaced); when it is false the target file must exist and is opened for
  writing in place. Then each block is written at \<open>blockNumber * blockSize\<close>, and the
  file is fsynced when asked.
\<close>

definition ApplyFileIncrement ::
  "env \<Rightarrow> wire_format \<Rightarrow> path \<Rightarrow> reader \<Rightarrow> bool \<Rightarrow> bool \<Rightarrow> state \<Rightarrow> error option \<times> state" where
  "ApplyFileIncrement e w targetPath r createNew fsync st =
     (if rerr r then (Some ReadError, st)
      else case decode w (rdata r) of
        None \<Rightarrow> (Some BadIncrement, st)
      | Some inc \<Rightarrow>
          if \<not> list_all (\<lambda>(n, b). length b = blockSize w) (blocks inc) then (Some BadIncrement, st)
          else
            (let c = SysOpenFile targetPath; st1 = called c st;
                 opened =
                   (if fails e c then None
                    else case files st (path_Clean targetPath) of
                           None \<Rightarrow> if createNew then Some (Regular (replicate (finalSize inc) 0) 438) else None
                         | Some (Regular bytes m) \<Rightarrow>
                             Some (Regular (if createNew then replicate (finalSize inc) 0 else bytes) m)
                         | Some _ \<Rightarrow> None)
             in case opened of
                  None \<Rightarrow> (Some (OsError c), st1)
                | Some nd \<Rightarrow>
                    (case write_blocks e (blockSize w) targetPath (blocks inc) (put_node targetPath nd st1) of
                       (Some err, st2) \<Rightarrow> (Some err, st2)
                     | (None, st2) \<Rightarrow>
                         if fsync then file_Sync e \<lparr>fname = targetPath, foffset = 0\<rparr> st2
                         else (None, st2))))"

subsection \<open>Regular files\<close>

definition unwrapRegularFileOld ::
  "env \<Rightarrow> wire_format \<Rightarrow> FileTarInterpreter \<Rightarrow> reader \<Rightarrow> header \<Rightarrow> string \<Rightarrow> bool \<Rightarrow> state
     \<Rightarrow> outcome \<times> state" where
  "unwrapRegularFileOld e w tarInterpreter fileReader fileInfo targetPath fsync st =
     (if (case FilesToUnwrap tarInterpreter of
            None \<Rightarrow> False
          | Some m \<Rightarrow> m (Name fileInfo) = None)
      then (Returns None, st)
      else
        if (case Files (FilesMetadata tarInterpreter) (Name fileInfo) of
              None \<Rightarrow> False
            | Some fileDescription \<Rightarrow>
                IsIncremental (Sentinel tarInterpreter) \<and> IsIncremented fileDescription)
        then
          (case ApplyFileIncrement e w targetPath fileReader
                  (createNewIncrementalFiles tarInterpreter) fsync st of
             (err, st1) \<Rightarrow>
               (Returns (errors_Wrapf err (''Interpret: failed to apply increment for '' @ [CHR 0x27] @ ''%s'' @ [CHR 0x27]) targetPath), st1))
        else
          (case PrepareDirs e (Name fileInfo) targetPath st of
             (Some err, st1) \<Rightarrow>
               (Returns (errors_Wrap (Some err) ''Interpret: failed to create all directories''), st1)
           | (None, st1) \<Rightarrow>
               (case os_OpenFile e targetPath st1 of
                  (Inl err, st2) \<Rightarrow>
                    (Returns (errors_Wrapf (Some err) (''failed to create new file: '' @ [CHR 0x27] @ ''%s'' @ [CHR 0x27]) targetPath), st2)
                | (Inr file, st2) \<Rightarrow>
                    (case WriteLocalFile e fileReader fileInfo file fsync st2 of
                       (Exits, st3) \<Rightarrow> (Exits, st3)
                     | (Returns r, st3) \<Rightarrow> (Returns r, LoggedClose file st3)))))"

subsection \<open>Dispatch on the entry type\<close>

text \<open>
  \<^verbatim>\<open>useNewUnwrapImplementation\<close> and \<^verbatim>\<open>unwrapRegularFileNew\<close> are not in the source
  files: the switch is a boolean parameter and the new implementation a function
  parameter, called as the source calls it.
\<close>

type_synonym unwrap_fn = "reader \<Rightarrow> header \<Rightarrow> string \<Rightarrow> bool \<Rightarrow> state \<Rightarrow> outcome \<times> state"

definition Interpret ::
  "bool \<Rightarrow> unwrap_fn \<Rightarrow> env \<Rightarrow> wire_format \<Rightarrow> FileTarInterpreter \<Rightarrow> reader \<Rightarrow> header \<Rightarrow> state
     \<Rightarrow> outcome \<times> state" where
  "Interpret useNewUnwrapImplementation unwrapRegularFileNew e w tarInterpreter fileReader fileInfo st =
     (let targetPath = path_Join (DBDataDirectory tarInterpreter) (Name fileInfo)
      in if Typeflag fileInfo = TypeReg \<or> Typeflag fileInfo = TypeRegA then
           (if useNewUnwrapImplementation
            then unwrapRegularFileNew fileReader fileInfo targetPath False st
            else unwrapRegularFileOld e w tarInterpreter fileReader fileInfo targetPath False st)
         else if Typeflag fileInfo = TypeDir then
           (case os_MkdirAll e targetPath 493 st of
              (Some err, st1) \<Rightarrow>
                (Returns (errors_Wrapf (Some err) ''Interpret: failed to create all directories in %s'' targetPath), st1)
            | (None, st1) \<Rightarrow>
                (case os_Chmod e targetPath (os_FileMode (Mode fileInfo)) st1 of
                   (Some err, st2) \<Rightarrow> (Returns (errors_Wrap (Some err) ''Interpret: chmod failed''), st2)
                 | (None, st2) \<Rightarrow> (Returns None, st2)))
         else if Typeflag fileInfo = TypeLink then
           (case os_Link e (Name fileInfo) targetPath st of
              (Some err, st1) \<Rightarrow>
                (Returns (errors_Wrapf (Some err) ''Interpret: failed to create hardlink %s'' targetPath), st1)
            | (None, st1) \<Rightarrow> (Returns None, st1))
         else if Typeflag fileInfo = TypeSymlink then
           (case os_Symlink e (Name fileInfo) targetPath st of
              (Some err, st1) \<Rightarrow>
                (Returns (errors_Wrapf (Some err) ''Interpret: failed to create symlink %s'' targetPath), st1)
            | (None, st1) \<Rightarrow> (Returns None, st1))
         else (Returns None, st))"

subsection \<open>Reading the list of calls\<close>

text \<open>The calls made between two states, and the kinds of call the properties
  below ask about.\<close>

definition new_calls :: "state \<Rightarrow> state \<Rightarrow> syscall list" where
  "new_calls st st' = drop (length (calls st)) (calls st')"

definition is_fsync :: "syscall \<Rightarrow> bool" where
  "is_fsync c = (case c of SysFsync _ \<Rightarrow> True | _ \<Rightarrow> False)"

definition is_write_at :: "syscall \<Rightarrow> bool" where
  "is_write_at c = (case c of SysWriteAt _ _ \<Rightarrow> True | _ \<Rightarrow> False)"

definition is_copy :: "syscall \<Rightarrow> bool" where
  "is_copy c = (case c of SysCopy _ \<Rightarrow> True | _ \<Rightarrow> False)"

text \<open>The content of a file after the blocks of an increment were written over
  \<open>base\<close> in stream order.\<close>

definition apply_blocks :: "nat \<Rightarrow> byte list \<Rightarrow> (nat \<times> byte list) list \<Rightarrow> byte list" where
  "apply_blocks S base bs = foldl (\<lambda>c (n, b). write_at c (n * S) b) base bs"

text \<open>A path element as \<^verbatim>\<open>path.Clean\<close> leaves it: not empty and without a slash.\<close>

definition plain :: "string \<Rightarrow> bool" where
  "plain x = (x \<noteq> [] \<and> CHR ''/'' \<notin> set x)"

subsection \<open>Concrete inputs\<close>

text \<open>Environments, states and entries at which the theorems below are evaluated.\<close>

definition env_ok :: env where
  "env_ok = \<lparr>fails = (\<lambda>_. False), wlimit = None, sync_errno = 0\<rparr>"

definition env_short_write :: env where
  "env_short_write = \<lparr>fails = (\<lambda>_. False), wlimit = Some 2, sync_errno = 0\<rparr>"

definition env_chmod_fails :: env where
  "env_chmod_fails = \<lparr>fails = (\<lambda>c. c = SysFchmod ''/t'' 420), wlimit = None, sync_errno = 0\<rparr>"

definition env_sync_fails :: env where
  "env_sync_fails = \<lparr>fails = (\<lambda>_. False), wlimit = None, sync_errno = 5\<rparr>"

definition st_empty :: state where
  "st_empty = \<lparr>files = Map.empty, calls = [], warnings = []\<rparr>"

definition st_one_file :: state where
  "st_one_file = \<lparr>files = [''/t'' \<mapsto> Regular [] 438], calls = [], warnings = []\<rparr>"

definition file_t :: os_file where
  "file_t = \<lparr>fname = ''/t'', foffset = 0\<rparr>"

definition reader_AAAA :: reader where
  "reader_AAAA = \<lparr>rdata = [65, 65, 65, 65], rerr = False\<rparr>"

definition header_t :: header where
  "header_t = \<lparr>Typeflag = TypeReg, Name = ''t'', Linkname = [], Mode = 420\<rparr>"

definition names_ex :: names where
  "names_ex = \<lparr>TarFsyncModeName = ''WALG_TAR_FSYNC_MODE'',
               TarDisableFsyncSettingName = ''WALG_TAR_DISABLE_FSYNC'',
               DisabledText = ''disabled''\<rparr>"

definition cfg_global :: config where
  "cfg_global = \<lparr>mode_setting = GLOBAL, disable_fsync = Some True\<rparr>"

definition cfg_disabled :: config where
  "cfg_disabled = \<lparr>mode_setting = DISABLED, disable_fsync = None\<rparr>"

text \<open>A small wire format: the first byte is the final size, then records of one
  byte of block number and four bytes of block content.\<close>

fun decode_blocks :: "byte list \<Rightarrow> (nat \<times> byte list) list option" where
  "decode_blocks [] = Some []"
| "decode_blocks (n # a # b # c # d # rest) =
     map_option (\<lambda>bs. (unat n, [a, b, c, d]) # bs) (decode_blocks rest)"
| "decode_blocks _ = None"

definition decode_ex :: "byte list \<Rightarrow> increment option" where
  "decode_ex bs =
     (case bs of
        [] \<Rightarrow> None
      | sz # rest \<Rightarrow> map_option (\<lambda>b. \<lparr>finalSize = unat sz, blocks = b\<rparr>) (decode_blocks rest))"

definition wire_ex :: wire_format where
  "wire_ex = \<lparr>blockSize = 4, decode = decode_ex\<rparr>"

definition reader_incr :: reader where
  "reader_incr = \<lparr>rdata = [12, 0, 88, 88, 88, 88, 2, 90, 90, 90, 90], rerr = False\<rparr>"

definition inc_ex :: increment where
  "inc_ex = \<lparr>finalSize = 12, blocks = [(0, [88, 88, 88, 88]), (2, [90, 90, 90, 90])]\<rparr>"

definition ti_full :: FileTarInterpreter where
  "ti_full = \<lparr>DBDataDirectory = ''/data'', Sentinel = \<lparr>IsIncremental = False\<rparr>,
              FilesMetadata = \<lparr>Files = Map.empty\<rparr>, FilesToUnwrap = None,
              createNewIncrementalFiles = False\<rparr>"

definition ti_incr :: FileTarInterpreter where
  "ti_incr = \<lparr>DBDataDirectory = ''/data'', Sentinel = \<lparr>IsIncremental = True\<rparr>,
              FilesMetadata = \<lparr>Files = [''base/1/16384'' \<mapsto> \<lparr>IsIncremented = True\<rparr>]\<rparr>,
              FilesToUnwrap = Some [''base/1/16384'' \<mapsto> True],
              createNewIncrementalFiles = False\<rparr>"

definition ti_select :: FileTarInterpreter where
  "ti_select = \<lparr>DBDataDirectory = ''/data'', Sentinel = \<lparr>IsIncremental = False\<rparr>,
                FilesMetadata = \<lparr>Files = Map.empty\<rparr>,
                FilesToUnwrap = Some [''pg_tblspc/1/x'' \<mapsto> True],
                createNewIncrementalFiles = False\<rparr>"

definition header_reg :: header where
  "header_reg = \<lparr>Typeflag = TypeReg, Name = ''base/1/16384'', Linkname = [], Mode = 420\<rparr>"

definition header_sym :: header where
  "header_sym = \<lparr>Typeflag = TypeSymlink, Name = ''pg_tblspc/16385'', Linkname = ''/mnt/ts1'',
                  Mode = 511\<rparr>"

definition st_base :: state where
  "st_base = \<lparr>files = [''/data/base/1/16384'' \<mapsto>
                 Regular [65, 65, 65, 65, 66, 66, 66, 66, 67, 67, 67, 67] 420],
              calls = [], warnings = []\<rparr>"

definition st_tblspc :: state where
  "st_tblspc = \<lparr>files = [''/data'' \<mapsto> Directory 448, ''/data/pg_tblspc'' \<mapsto> Directory 448],
                calls = [], warnings = []\<rparr>"

definition header_setuid :: header where
  "header_setuid = \<lparr>Typeflag = TypeReg, Name = ''base/1/16384'', Linkname = [], Mode = 2541\<rparr>"


definition unwrap_new_ex :: unwrap_fn where
  "unwrap_new_ex = (\<lambda>fileReader fileInfo targetPath fsync st. (Returns None, st))"

definition cfg_default :: config where
  "cfg_default = \<lparr>mode_setting = DEFAULT, disable_fsync = None\<rparr>"

section \<open>Properties\<close>

subsection \<open>What each operating-system call does to the state\<close>

lemma io_Copy_calls: "calls (snd (io_Copy e f r st)) = calls st @ [SysCopy (fname f)]"
  by (simp add: io_Copy_def called_def put_node_def Let_def split: option.splits node.splits)

lemma io_Copy_ok:
  assumes "fst (io_Copy e f r st) = None"
  shows "\<exists>c m. files st (path_Clean (fname f)) = Some (Regular c m) \<and>
           files (snd (io_Copy e f r st)) (path_Clean (fname f)) =
             Some (Regular (write_at c (foffset f) (rdata r)) m)"
  using assms
  by (auto simp: io_Copy_def called_def put_node_def Let_def min_def
           split: option.splits node.splits if_splits)

lemma os_Remove_ok:
  "fst (os_Remove e p st) = None \<Longrightarrow> files (snd (os_Remove e p st)) (path_Clean p) = None"
  by (auto simp: os_Remove_def called_def Let_def split: if_splits)

lemma os_Remove_calls: "calls (snd (os_Remove e p st)) = calls st @ [SysRemove p]"
  by (simp add: os_Remove_def called_def Let_def)

lemma file_Chmod_calls: "calls (snd (file_Chmod e f m st)) = calls st @ [SysFchmod (fname f) m]"
  by (simp add: file_Chmod_def called_def put_node_def Let_def split: option.splits node.splits)

lemma file_Chmod_content:
  "files st (path_Clean (fname f)) = Some (Regular c m0) \<Longrightarrow>
   files (snd (file_Chmod e f m st)) (path_Clean (fname f)) =
     Some (Regular c (if fst (file_Chmod e f m st) = None then syscallMode m else m0))"
  by (simp add: file_Chmod_def called_def put_node_def Let_def)

lemma file_Sync_calls: "calls (snd (file_Sync e f st)) = calls st @ [SysFsync (fname f)]"
  by (simp add: file_Sync_def called_def Let_def)

lemma file_Sync_files: "files (snd (file_Sync e f st)) = files st"
  by (simp add: file_Sync_def called_def Let_def)

subsection \<open>The two halves of WriteLocalFile\<close>

lemma WriteLocalFile_copy_failed:
  assumes "fst (io_Copy e f r st) = Some err"
  shows "WriteLocalFile e r h f fsync st =
           (case os_Remove e (fname f) (snd (io_Copy e f r st)) of
              (Some err1, st2) \<Rightarrow> (Exits, st2)
            | (None, st2) \<Rightarrow> (Returns (Some (Wrap err ''Interpret: copy failed'')), st2))"
  using assms
  by (cases "io_Copy e f r st")
     (auto simp: WriteLocalFile_def errors_Wrap_def split: prod.splits option.splits)

lemma WriteLocalFile_copy_ok:
  assumes "fst (io_Copy e f r st) = None"
  shows "WriteLocalFile e r h f fsync st =
           (case file_Chmod e f (os_FileMode (Mode h)) (snd (io_Copy e f r st)) of
              (Some err, st2) \<Rightarrow> (Returns (Some (Wrap err ''Interpret: chmod failed'')), st2)
            | (None, st2) \<Rightarrow>
                if fsync then (Returns (errors_Wrap (fst (file_Sync e f st2)) ''Interpret: fsync failed''),
                               snd (file_Sync e f st2))
                else (Returns None, st2))"
  using assms
  by (cases "io_Copy e f r st")
     (auto simp: WriteLocalFile_def errors_Wrap_def split: prod.splits option.splits)

lemma WriteLocalFile_after_copy_failure:
  assumes "fst (io_Copy e f r st) = Some err"
      and "fst (WriteLocalFile e r h f fsync st) \<noteq> Exits"
  shows "WriteLocalFile e r h f fsync st =
           (Returns (Some (Wrap err ''Interpret: copy failed'')),
            snd (os_Remove e (fname f) (snd (io_Copy e f r st))))
       \<and> fst (os_Remove e (fname f) (snd (io_Copy e f r st))) = None"
  using assms(2) unfolding WriteLocalFile_copy_failed [OF assms(1)]
  by (auto split: prod.splits option.splits)

subsection \<open>A failed copy removes the file\<close>

text \<open>
  Claim C2. In a full-file write whose byte copy from the content reader fails, the
  file is removed before the error is returned: whenever \<open>WriteLocalFile\<close> returns
  (the process was not ended because the removal itself failed), the path of the
  file holds nothing, the result is the copy error wrapped as
  \<^verbatim>\<open>Interpret: copy failed\<close>, and the calls made are the copy followed by the removal.
\<close>

theorem WriteLocalFile_copy_failure_removes_file:
  assumes "fst (io_Copy e localFile fileReader st) \<noteq> None"
      and "fst (WriteLocalFile e fileReader hdr localFile fsync st) \<noteq> Exits"
  shows "files (snd (WriteLocalFile e fileReader hdr localFile fsync st))
             (path_Clean (fname localFile)) = None
       \<and> (\<exists>err. fst (WriteLocalFile e fileReader hdr localFile fsync st) =
                   Returns (Some (Wrap err ''Interpret: copy failed'')))
       \<and> calls (snd (WriteLocalFile e fileReader hdr localFile fsync st)) =
           calls st @ [SysCopy (fname localFile), SysRemove (fname localFile)]"
proof -
  from assms(1) obtain err where err: "fst (io_Copy e localFile fileReader st) = Some err"
    by auto
  note A = WriteLocalFile_after_copy_failure [OF err assms(2)]
  show ?thesis
    using os_Remove_ok [OF conjunct2 [OF A]]
    by (simp add: conjunct1 [OF A] os_Remove_calls io_Copy_calls)
qed

text \<open>The file accepts two of the reader's four bytes: the copy fails, the call
  returns, and the path \<^verbatim>\<open>/t\<close> is gone.\<close>

theorem WriteLocalFile_copy_failure_removes_file_witness:
  "fst (io_Copy env_short_write file_t reader_AAAA st_one_file) \<noteq> None
   \<and> fst (WriteLocalFile env_short_write reader_AAAA header_t file_t False st_one_file) \<noteq> Exits
   \<and> files (snd (WriteLocalFile env_short_write reader_AAAA header_t file_t False st_one_file))
        ''/t'' = None"
proof -
  have h1: "fst (io_Copy env_short_write file_t reader_AAAA st_one_file) \<noteq> None"
    by code_simp
  have h2: "fst (WriteLocalFile env_short_write reader_AAAA header_t file_t False st_one_file) \<noteq> Exits"
    by code_simp
  have k: "path_Clean (fname file_t) = ''/t''"
    by code_simp
  from WriteLocalFile_copy_failure_removes_file [OF h1 h2] h1 h2 show ?thesis
    by (simp add: k)
qed

subsection \<open>After an error the file is absent or complete\<close>

text \<open>
  Claim C10. Let the open file be a regular file. When \<open>WriteLocalFile\<close> returns an
  error, one of two things holds. Either the copy failed and the path holds nothing;
  or the copy succeeded (so the error comes from chmod or from the requested fsync),
  the file is still at its path with the complete content, that is the reader's
  bytes written at the file's offset, and no removal was called.
\<close>

theorem WriteLocalFile_error_absent_or_complete:
  assumes "files st (path_Clean (fname localFile)) = Some (Regular c m)"
      and "fst (WriteLocalFile e fileReader hdr localFile fsync st) = Returns (Some err)"
  shows "(fst (io_Copy e localFile fileReader st) \<noteq> None \<and>
          files (snd (WriteLocalFile e fileReader hdr localFile fsync st))
                (path_Clean (fname localFile)) = None)
       \<or> (fst (io_Copy e localFile fileReader st) = None \<and>
          (\<exists>m'. files (snd (WriteLocalFile e fileReader hdr localFile fsync st))
                   (path_Clean (fname localFile)) =
                 Some (Regular (write_at c (foffset localFile) (rdata fileReader)) m')) \<and>
          SysRemove (fname localFile) \<notin>
            set (drop (length (calls st))
                   (calls (snd (WriteLocalFile e fileReader hdr localFile fsync st)))))"
proof (cases "fst (io_Copy e localFile fileReader st)")
  case (Some a)
  have ne: "fst (WriteLocalFile e fileReader hdr localFile fsync st) \<noteq> Exits"
    using assms(2) by simp
  note A = WriteLocalFile_after_copy_failure [OF Some ne]
  show ?thesis
    using os_Remove_ok [OF conjunct2 [OF A]] Some
    by (simp add: conjunct1 [OF A])
next
  case None
  let ?st1 = "snd (io_Copy e localFile fileReader st)"
  let ?k = "path_Clean (fname localFile)"
  let ?full = "write_at c (foffset localFile) (rdata fileReader)"
  from io_Copy_ok [OF None] assms(1)
  have F1: "files ?st1 ?k = Some (Regular ?full m)" by simp
  let ?ch = "file_Chmod e localFile (os_FileMode (Mode hdr)) ?st1"
  have F2: "\<exists>m'. files (snd ?ch) ?k = Some (Regular ?full m')"
    using file_Chmod_content [OF F1] by blast
  have C2: "calls (snd ?ch) = calls st @ [SysCopy (fname localFile),
              SysFchmod (fname localFile) (os_FileMode (Mode hdr))]"
    by (simp add: file_Chmod_calls io_Copy_calls)
  have "(\<exists>m'. files (snd (WriteLocalFile e fileReader hdr localFile fsync st)) ?k =
                 Some (Regular ?full m')) \<and>
        SysRemove (fname localFile) \<notin>
          set (drop (length (calls st))
                 (calls (snd (WriteLocalFile e fileReader hdr localFile fsync st))))"
    unfolding WriteLocalFile_copy_ok [OF None] using F2 C2
    by (cases ?ch) (auto simp: file_Sync_files file_Sync_calls split: option.splits)
  with None show ?thesis by simp
qed

text \<open>The copy of four bytes succeeds and chmod fails: the error is returned and
  the file \<^verbatim>\<open>/t\<close> holds the four bytes.\<close>

theorem WriteLocalFile_error_absent_or_complete_witness:
  "files st_one_file (path_Clean (fname file_t)) = Some (Regular [] 438)
   \<and> fst (WriteLocalFile env_chmod_fails reader_AAAA header_t file_t False st_one_file) =
       Returns (Some (Wrap (OsError (SysFchmod ''/t'' 420)) ''Interpret: chmod failed''))
   \<and> fst (io_Copy env_chmod_fails file_t reader_AAAA st_one_file) = None
   \<and> (\<exists>m'. files (snd (WriteLocalFile env_chmod_fails reader_AAAA header_t file_t False st_one_file))
              ''/t'' = Some (Regular [65, 65, 65, 65] m'))"
proof -
  have h1: "files st_one_file (path_Clean (fname file_t)) = Some (Regular [] 438)"
    by code_simp
  have h2: "fst (WriteLocalFile env_chmod_fails reader_AAAA header_t file_t False st_one_file) =
       Returns (Some (Wrap (OsError (SysFchmod ''/t'' 420)) ''Interpret: chmod failed''))"
    by code_simp
  have h3: "fst (io_Copy env_chmod_fails file_t reader_AAAA st_one_file) = None"
    by code_simp
  have k: "path_Clean (fname file_t) = ''/t''"
    by code_simp
  have w: "write_at [] (foffset file_t) (rdata reader_AAAA) = [65, 65, 65, 65]"
    by code_simp
  from WriteLocalFile_error_absent_or_complete [OF h1 h2] h1 h2 h3 show ?thesis
    by (simp add: k w)
qed

subsection \<open>Resolving the file sync mode\<close>

lemma messages_differ: "deprecatedFileSyncMessage k \<noteq> fallingBackFileSyncMessage k"
  by (simp add: deprecatedFileSyncMessage_def fallingBackFileSyncMessage_def)

lemma getFileSyncMode_calls: "calls (snd (getFileSyncMode k cfg st)) = calls st"
  by (simp add: getFileSyncMode_def warn_def Let_def)

text \<open>
  Claim C3. With the deprecated boolean set to true and the mode setting at Default,
  the resolved mode is Disabled and two warnings are logged, the deprecation message
  and then the fall-back message, which are different texts. With the mode setting at
  Global and the deprecated boolean true, the resolved mode is Global and only the
  deprecation message is logged. With the mode setting at Disabled the resolved mode
  is Disabled whatever the deprecated boolean is.
\<close>

theorem getFileSyncMode_resolution:
  "getFileSyncMode k \<lparr>mode_setting = DEFAULT, disable_fsync = Some True\<rparr> st =
     (DISABLED, st\<lparr>warnings := warnings st @
        [deprecatedFileSyncMessage k, fallingBackFileSyncMessage k]\<rparr>)
   \<and> deprecatedFileSyncMessage k \<noteq> fallingBackFileSyncMessage k
   \<and> getFileSyncMode k \<lparr>mode_setting = GLOBAL, disable_fsync = Some True\<rparr> st =
     (GLOBAL, st\<lparr>warnings := warnings st @ [deprecatedFileSyncMessage k]\<rparr>)
   \<and> fst (getFileSyncMode k \<lparr>mode_setting = DISABLED, disable_fsync = legacy\<rparr> st) = DISABLED"
  by (simp add: getFileSyncMode_def viper_IsSet_def viper_GetBool_def warn_def messages_differ)

subsection \<open>The finalize hook\<close>

text \<open>
  Claim C5. When the resolved mode is Global, \<open>OnInterpretFinish\<close> makes one
  whole-filesystem sync call; it returns no error when the call's error number is 0
  and otherwise an error carrying that number. When the resolved mode is Disabled it
  makes no call and returns no error.
\<close>

theorem OnInterpretFinish_by_mode:
  "(fst (getFileSyncMode k cfg st) = GLOBAL \<longrightarrow>
      calls (snd (OnInterpretFinish k cfg e st)) = calls st @ [SysSync] \<and>
      fst (OnInterpretFinish k cfg e st) =
        (if sync_errno e = 0 then None
         else Some (Errorf ''FileTarInterpreter: global fsync failed with error code %d'' (sync_errno e))))
   \<and> (fst (getFileSyncMode k cfg st) = DISABLED \<longrightarrow>
      calls (snd (OnInterpretFinish k cfg e st)) = calls st \<and>
      fst (OnInterpretFinish k cfg e st) = None)"
  using getFileSyncMode_calls [of k cfg st]
  by (auto simp: OnInterpretFinish_def unix_Sync_def called_def split: prod.splits)

text \<open>Global with a sync call that returns error number 5, and Disabled.\<close>

theorem OnInterpretFinish_by_mode_witness:
  "fst (getFileSyncMode names_ex cfg_global st_empty) = GLOBAL
   \<and> calls (snd (OnInterpretFinish names_ex cfg_global env_sync_fails st_empty)) = [SysSync]
   \<and> fst (OnInterpretFinish names_ex cfg_global env_sync_fails st_empty) =
       Some (Errorf ''FileTarInterpreter: global fsync failed with error code %d'' 5)
   \<and> fst (getFileSyncMode names_ex cfg_disabled st_empty) = DISABLED
   \<and> calls (snd (OnInterpretFinish names_ex cfg_disabled env_sync_fails st_empty)) = []
   \<and> fst (OnInterpretFinish names_ex cfg_disabled env_sync_fails st_empty) = None"
proof -
  have g: "fst (getFileSyncMode names_ex cfg_global st_empty) = GLOBAL"
    by (simp add: getFileSyncMode_def cfg_global_def viper_IsSet_def)
  have d: "fst (getFileSyncMode names_ex cfg_disabled st_empty) = DISABLED"
    by (simp add: getFileSyncMode_def cfg_disabled_def viper_IsSet_def)
  have c: "calls st_empty = []" and n: "sync_errno env_sync_fails = 5"
    by (simp_all add: st_empty_def env_sync_fails_def)
  from OnInterpretFinish_by_mode [of names_ex cfg_global st_empty env_sync_fails]
       OnInterpretFinish_by_mode [of names_ex cfg_disabled st_empty env_sync_fails]
       g d
  show ?thesis by (simp add: c n)
qed

subsection \<open>Links\<close>

lemma os_Link_calls: "calls (snd (os_Link e a b st)) = calls st @ [SysLink a b]"
  by (simp add: os_Link_def called_def put_node_def Let_def)

lemma os_Symlink_calls: "calls (snd (os_Symlink e a b st)) = calls st @ [SysSymlink a b]"
  by (simp add: os_Symlink_def called_def put_node_def Let_def)

lemma os_Link_files:
  "files (snd (os_Link e a b st)) =
     (if fst (os_Link e a b st) = None then (files st)(path_Clean b \<mapsto> Hardlink a) else files st)"
  by (simp add: os_Link_def called_def put_node_def Let_def)

lemma os_Symlink_files:
  "files (snd (os_Symlink e a b st)) =
     (if fst (os_Symlink e a b st) = None then (files st)(path_Clean b \<mapsto> Symlink a) else files st)"
  by (simp add: os_Symlink_def called_def put_node_def Let_def)

lemma os_Link_exists: "files st (path_Clean b) \<noteq> None \<Longrightarrow> fst (os_Link e a b st) \<noteq> None"
  by (simp add: os_Link_def Let_def)

lemma os_Symlink_exists: "files st (path_Clean b) \<noteq> None \<Longrightarrow> fst (os_Symlink e a b st) \<noteq> None"
  by (simp add: os_Symlink_def Let_def)

lemma flags_distinct:
  "TypeLink \<noteq> TypeReg" "TypeLink \<noteq> TypeRegA" "TypeLink \<noteq> TypeDir"
  "TypeSymlink \<noteq> TypeReg" "TypeSymlink \<noteq> TypeRegA" "TypeSymlink \<noteq> TypeDir"
  "TypeSymlink \<noteq> TypeLink"
  by (simp_all add: TypeLink_def TypeReg_def TypeRegA_def TypeDir_def TypeSymlink_def)

lemma Interpret_TypeLink:
  "Typeflag h = TypeLink \<Longrightarrow>
   Interpret u un e w ti r h st =
     (Returns (errors_Wrapf (fst (os_Link e (Name h) (path_Join (DBDataDirectory ti) (Name h)) st))
                 ''Interpret: failed to create hardlink %s'' (path_Join (DBDataDirectory ti) (Name h))),
      snd (os_Link e (Name h) (path_Join (DBDataDirectory ti) (Name h)) st))"
  by (cases "os_Link e (Name h) (path_Join (DBDataDirectory ti) (Name h)) st")
     (auto simp: Interpret_def flags_distinct errors_Wrapf_def Let_def split: option.splits)

lemma Interpret_TypeSymlink:
  "Typeflag h = TypeSymlink \<Longrightarrow>
   Interpret u un e w ti r h st =
     (Returns (errors_Wrapf (fst (os_Symlink e (Name h) (path_Join (DBDataDirectory ti) (Name h)) st))
                 ''Interpret: failed to create symlink %s'' (path_Join (DBDataDirectory ti) (Name h))),
      snd (os_Symlink e (Name h) (path_Join (DBDataDirectory ti) (Name h)) st))"
  by (cases "os_Symlink e (Name h) (path_Join (DBDataDirectory ti) (Name h)) st")
     (auto simp: Interpret_def flags_distinct errors_Wrapf_def Let_def split: option.splits)

subsection \<open>Opening, closing and writing a whole file\<close>

lemma os_OpenFile_calls: "calls (snd (os_OpenFile e p st)) = calls st @ [SysOpenFile p]"
  by (simp add: os_OpenFile_def called_def put_node_def Let_def split: option.splits node.splits)

lemma os_OpenFile_ok:
  "fst (os_OpenFile e p st) = Inr f \<Longrightarrow>
   f = \<lparr>fname = p, foffset = 0\<rparr> \<and>
   (\<exists>m. files (snd (os_OpenFile e p st)) (path_Clean p) = Some (Regular [] m))"
  by (auto simp: os_OpenFile_def called_def put_node_def Let_def
           split: option.splits node.splits if_splits)

lemma os_MkdirAll_calls: "calls (snd (os_MkdirAll e p m st)) = calls st @ [SysMkdirAll p m]"
  by (simp add: os_MkdirAll_def called_def Let_def)

lemma PrepareDirs_calls:
  "calls (snd (PrepareDirs e n p st)) =
     calls st @ (if n = p then [] else [SysMkdirAll (strings_TrimSuffix p (filepath_Base n)) 493])"
  by (simp add: PrepareDirs_def os_MkdirAll_calls Let_def)

lemma LoggedClose_files: "files (LoggedClose f st) = files st"
  by (simp add: LoggedClose_def called_def)

lemma LoggedClose_calls: "calls (LoggedClose f st) = calls st @ [SysClose (fname f)]"
  by (simp add: LoggedClose_def called_def)

lemma write_at_empty: "write_at [] 0 bs = bs"
  by (simp add: write_at_def)

lemma WriteLocalFile_success:
  assumes "fst (WriteLocalFile e r h f fsync st) = Returns None"
      and "files st (path_Clean (fname f)) = Some (Regular c m)"
  shows "files (snd (WriteLocalFile e r h f fsync st)) (path_Clean (fname f)) =
           Some (Regular (write_at c (foffset f) (rdata r)) (syscallMode (os_FileMode (Mode h))))"
proof (cases "fst (io_Copy e f r st)")
  case (Some a)
  show ?thesis
    using assms(1) unfolding WriteLocalFile_copy_failed [OF Some]
    by (auto split: prod.splits option.splits)
next
  case None
  let ?st1 = "snd (io_Copy e f r st)"
  from io_Copy_ok [OF None] assms(2)
  have F1: "files ?st1 (path_Clean (fname f)) =
              Some (Regular (write_at c (foffset f) (rdata r)) m)" by simp
  let ?ch = "file_Chmod e f (os_FileMode (Mode h)) ?st1"
  have ok: "fst ?ch = None"
    using assms(1) unfolding WriteLocalFile_copy_ok [OF None]
    by (cases ?ch) (auto split: option.splits)
  have F2: "files (snd ?ch) (path_Clean (fname f)) =
              Some (Regular (write_at c (foffset f) (rdata r)) (syscallMode (os_FileMode (Mode h))))"
    using file_Chmod_content [OF F1, of e "os_FileMode (Mode h)"] ok by simp
  show ?thesis
    unfolding WriteLocalFile_copy_ok [OF None] using F2 ok
    by (cases ?ch) (auto simp: file_Sync_files)
qed

lemma WriteLocalFile_calls:
  "\<exists>cs. calls (snd (WriteLocalFile e r h f fsync st)) = calls st @ cs \<and>
        (\<forall>c \<in> set cs. \<not> is_write_at c \<and> (is_fsync c \<longrightarrow> fsync))"
proof (cases "fst (io_Copy e f r st)")
  case (Some a)
  show ?thesis
    unfolding WriteLocalFile_copy_failed [OF Some]
    by (cases "os_Remove e (fname f) (snd (io_Copy e f r st))")
       (use os_Remove_calls [of e "fname f" "snd (io_Copy e f r st)"] in
         \<open>auto simp: io_Copy_calls is_write_at_def is_fsync_def split: option.splits\<close>)
next
  case None
  let ?ch = "file_Chmod e f (os_FileMode (Mode h)) (snd (io_Copy e f r st))"
  show ?thesis
    unfolding WriteLocalFile_copy_ok [OF None]
    by (cases ?ch)
       (use file_Chmod_calls [of e f "os_FileMode (Mode h)" "snd (io_Copy e f r st)"] in
         \<open>auto simp: io_Copy_calls file_Sync_calls is_write_at_def is_fsync_def split: option.splits\<close>)
qed

subsection \<open>Positioned writes and the blocks of an increment\<close>

lemma length_write_at:
  "length (write_at c off bs) = (if bs = [] then length c else max (length c) (off + length bs))"
  by (auto simp: write_at_def)

lemma nth_write_at:
  assumes "i < length (write_at c off bs)"
  shows "write_at c off bs ! i =
           (if off \<le> i \<and> i < off + length bs then bs ! (i - off)
            else if i < length c then c ! i else 0)"
proof (cases "bs = []")
  case True
  with assms show ?thesis by (auto simp: write_at_def)
next
  case False
  define pre where "pre = take off (c @ replicate (off - length c) 0)"
  define post where "post = drop (off + length bs) c"
  have lp: "length pre = off" by (simp add: pre_def)
  have W: "write_at c off bs = pre @ bs @ post"
    using False by (simp add: write_at_def pre_def post_def)
  consider "i < off" | "off \<le> i" "i < off + length bs" | "off + length bs \<le> i"
    by linarith
  then show ?thesis
  proof cases
    case 1
    have "write_at c off bs ! i = pre ! i"
      unfolding W using 1 lp by (simp add: nth_append)
    also have "\<dots> = (c @ replicate (off - length c) 0) ! i"
      unfolding pre_def using 1 by (rule nth_take)
    also have "\<dots> = (if i < length c then c ! i else 0)"
    proof (cases "i < length c")
      case True
      then show ?thesis by (simp add: nth_append)
    next
      case False
      with 1 have "i - length c < off - length c" by arith
      with False show ?thesis by (simp add: nth_append)
    qed
    finally show ?thesis using 1 by simp
  next
    case 2
    then have "i - off < length bs" by arith
    with 2 have "write_at c off bs ! i = bs ! (i - off)"
      unfolding W using lp by (simp add: nth_append)
    with 2 show ?thesis by simp
  next
    case 3
    with assms False have ic: "i < length c" by (simp add: length_write_at)
    have "\<not> i < off" "\<not> i - off < length bs" using 3 by arith+
    then have "write_at c off bs ! i = post ! (i - off - length bs)"
      unfolding W using lp by (simp add: nth_append)
    also have "\<dots> = c ! i"
      unfolding post_def using 3 ic by simp
    finally show ?thesis using 3 ic by simp
  qed
qed

lemma apply_blocks_snoc:
  "apply_blocks S c (bs @ [(n, b)]) = write_at (apply_blocks S c bs) (n * S) b"
  by (simp add: apply_blocks_def)

lemma apply_blocks_Cons:
  "apply_blocks S c ((n, b) # bs) = apply_blocks S (write_at c (n * S) b) bs"
  by (simp add: apply_blocks_def)

lemma apply_blocks_Nil: "apply_blocks S c [] = c"
  by (simp add: apply_blocks_def)

lemma length_apply_blocks_ge: "length c \<le> length (apply_blocks S c bs)"
  by (induction bs rule: rev_induct)
     (auto simp: apply_blocks_Nil apply_blocks_snoc length_write_at)

lemma length_apply_blocks_block:
  "(n, b) \<in> set bs \<Longrightarrow> b \<noteq> [] \<Longrightarrow> n * S + length b \<le> length (apply_blocks S c bs)"
proof (induction bs rule: rev_induct)
  case Nil
  then show ?case by simp
next
  case (snoc x xs)
  obtain n' b' where x: "x = (n', b')" by (cases x)
  show ?case
  proof (cases "(n, b) = x")
    case True
    with snoc.prems x show ?thesis by (simp add: apply_blocks_snoc length_write_at)
  next
    case False
    with snoc have "n * S + length b \<le> length (apply_blocks S c xs)" by simp
    then show ?thesis unfolding x by (auto simp: apply_blocks_snoc length_write_at)
  qed
qed

lemma block_range_div:
  "0 < S \<Longrightarrow> (n * S \<le> i \<and> i < n * S + S) = (i div S = n)" for S n i :: nat
proof
  assume S: "0 < S" and r: "n * S \<le> i \<and> i < n * S + S"
  show "i div S = n"
    by (rule div_nat_eqI) (use r in \<open>simp_all add: mult.commute\<close>)
next
  assume S: "0 < S" and d: "i div S = n"
  have "i div S * S \<le> i" by (rule div_times_less_eq_dividend)
  moreover have "i < S + i div S * S" using S by (rule dividend_less_div_times)
  ultimately show "n * S \<le> i \<and> i < n * S + S" using d by simp
qed

lemma nth_apply_blocks:
  assumes "\<forall>(n, b) \<in> set bs. length b = S" and "0 < S"
      and "i < length (apply_blocks S c bs)"
  shows "apply_blocks S c bs ! i =
           (case map_of (rev bs) (i div S) of
              Some b \<Rightarrow> b ! (i mod S)
            | None \<Rightarrow> if i < length c then c ! i else 0)"
  using assms(1,3)
proof (induction bs arbitrary: i rule: rev_induct)
  case Nil
  then show ?case by (simp add: apply_blocks_Nil)
next
  case (snoc x xs)
  obtain n b where x: "x = (n, b)" by (cases x)
  have lb: "length b = S" using snoc.prems(1) x by simp
  have sized: "\<forall>(n, b) \<in> set xs. length b = S" using snoc.prems(1) by simp
  let ?prev = "apply_blocks S c xs"
  have i: "i < length (write_at ?prev (n * S) b)"
    using snoc.prems(2) x by (simp add: apply_blocks_snoc)
  show ?case
  proof (cases "i div S = n")
    case True
    with block_range_div [OF assms(2), of n i] have r: "n * S \<le> i" "i < n * S + S" by simp_all
    have "i - n * S = i mod S"
      using True by (metis add_diff_cancel_left' mult.commute mult_div_mod_eq)
    with r lb True show ?thesis
      unfolding x by (simp add: apply_blocks_snoc nth_write_at [OF i])
  next
    case False
    with block_range_div [OF assms(2), of n i] have nr: "\<not> (n * S \<le> i \<and> i < n * S + S)" by simp
    have m: "map_of (rev (xs @ [x])) (i div S) = map_of (rev xs) (i div S)"
      using False x by simp
    show ?thesis
    proof (cases "i < length ?prev")
      case True
      with nr lb show ?thesis
        unfolding x m [unfolded x] using snoc.IH [OF sized True]
        by (auto simp: apply_blocks_snoc nth_write_at [OF i])
    next
      case False
      have none: "map_of (rev xs) (i div S) = None"
      proof (rule ccontr)
        assume "map_of (rev xs) (i div S) \<noteq> None"
        then obtain b' where "map_of (rev xs) (i div S) = Some b'" by auto
        then have mem: "(i div S, b') \<in> set xs" by (auto dest: map_of_SomeD)
        with sized have "length b' = S" by auto
        with assms(2) have "b' \<noteq> []" by auto
        from length_apply_blocks_block [OF mem this, of S c] \<open>length b' = S\<close>
        have "(i div S) * S + S \<le> length ?prev" by simp
        moreover have "i < (i div S) * S + S"
          using block_range_div [OF assms(2), of "i div S" i] by simp
        ultimately show False using False by simp
      qed
      have ic: "\<not> i < length c"
        using False length_apply_blocks_ge [of c S xs] by simp
      from nr lb False none ic show ?thesis
        unfolding x m [unfolded x]
        by (auto simp: apply_blocks_snoc nth_write_at [OF i])
    qed
  qed
qed

lemma write_blocks_ok:
  "files st (path_Clean p) = Some (Regular c m) \<Longrightarrow>
   fst (write_blocks e S p bs st) = None \<Longrightarrow>
   files (snd (write_blocks e S p bs st)) (path_Clean p) = Some (Regular (apply_blocks S c bs) m)"
proof (induction bs arbitrary: st c)
  case Nil
  then show ?case by (simp add: apply_blocks_Nil)
next
  case (Cons x xs)
  obtain n b where x: "x = (n, b)" by (cases x)
  let ?st' = "put_node p (Regular (write_at c (n * S) b) m) (called (SysWriteAt p (n * S)) st)"
  have nf: "\<not> fails e (SysWriteAt p (n * S))"
    using Cons.prems unfolding x by (auto simp: Let_def split: if_splits)
  have step: "write_blocks e S p (x # xs) st = write_blocks e S p xs ?st'"
    using Cons.prems(1) nf unfolding x by (simp add: Let_def)
  have f: "files ?st' (path_Clean p) = Some (Regular (write_at c (n * S) b) m)"
    by (simp add: put_node_def called_def)
  have p2: "fst (write_blocks e S p xs ?st') = None"
    using Cons.prems(2) unfolding step .
  from Cons.IH [OF f p2] show ?case
    unfolding step by (simp add: x apply_blocks_Cons)
qed

lemma write_blocks_calls:
  "\<exists>cs. calls (snd (write_blocks e S p bs st)) = calls st @ cs \<and> (\<forall>c \<in> set cs. is_write_at c)"
proof (induction bs arbitrary: st)
  case Nil
  then show ?case by simp
next
  case (Cons x xs)
  obtain n b where x: "x = (n, b)" by (cases x)
  show ?case
  proof (cases "\<exists>bytes m. files st (path_Clean p) = Some (Regular bytes m) \<and>
                  \<not> fails e (SysWriteAt p (n * S))")
    case True
    then obtain bytes m where f: "files st (path_Clean p) = Some (Regular bytes m)"
      and nf: "\<not> fails e (SysWriteAt p (n * S))" by blast
    let ?st' = "put_node p (Regular (write_at bytes (n * S) b) m) (called (SysWriteAt p (n * S)) st)"
    have step: "write_blocks e S p (x # xs) st = write_blocks e S p xs ?st'"
      using f nf unfolding x by (simp add: Let_def)
    from Cons.IH [of ?st'] obtain cs where
      cs: "calls (snd (write_blocks e S p xs ?st')) = calls ?st' @ cs" "\<forall>c \<in> set cs. is_write_at c"
      by blast
    have "calls ?st' = calls st @ [SysWriteAt p (n * S)]"
      by (simp add: put_node_def called_def)
    with cs have "calls (snd (write_blocks e S p (x # xs) st)) = calls st @ (SysWriteAt p (n * S) # cs)
        \<and> (\<forall>c \<in> set (SysWriteAt p (n * S) # cs). is_write_at c)"
      unfolding step by (simp add: is_write_at_def)
    then show ?thesis by blast
  next
    case False
    then have "calls (snd (write_blocks e S p (x # xs) st)) = calls st @ [SysWriteAt p (n * S)]"
      unfolding x by (auto simp: Let_def called_def split: option.splits node.splits)
    moreover have "\<forall>c \<in> set [SysWriteAt p (n * S)]. is_write_at c"
      by (simp add: is_write_at_def)
    ultimately show ?thesis by blast
  qed
qed

lemma ApplyFileIncrement_ok:
  assumes ok: "fst (ApplyFileIncrement e w p r createNew fsync st) = None"
  shows "\<exists>inc base m.
           decode w (rdata r) = Some inc \<and>
           (\<forall>(n, b) \<in> set (blocks inc). length b = blockSize w) \<and>
           (if createNew then base = replicate (finalSize inc) 0
            else \<exists>m0. files st (path_Clean p) = Some (Regular base m0)) \<and>
           files (snd (ApplyFileIncrement e w p r createNew fsync st)) (path_Clean p) =
             Some (Regular (apply_blocks (blockSize w) base (blocks inc)) m)"
proof -
  from ok have nr: "\<not> rerr r"
    by (auto simp: ApplyFileIncrement_def)
  from ok nr obtain inc where inc: "decode w (rdata r) = Some inc"
    by (cases "decode w (rdata r)") (auto simp: ApplyFileIncrement_def)
  from ok nr inc have sized: "list_all (\<lambda>(n, b). length b = blockSize w) (blocks inc)"
    by (auto simp: ApplyFileIncrement_def split: if_splits)
  let ?c = "SysOpenFile p"
  let ?st1 = "called ?c st"
  define opened where "opened =
     (if fails e ?c then None
      else case files st (path_Clean p) of
             None \<Rightarrow> if createNew then Some (Regular (replicate (finalSize inc) 0) 438) else None
           | Some (Regular bytes m) \<Rightarrow>
               Some (Regular (if createNew then replicate (finalSize inc) 0 else bytes) m)
           | Some _ \<Rightarrow> None)"
  have A: "ApplyFileIncrement e w p r createNew fsync st =
             (case opened of
                None \<Rightarrow> (Some (OsError ?c), ?st1)
              | Some nd \<Rightarrow>
                  (case write_blocks e (blockSize w) p (blocks inc) (put_node p nd ?st1) of
                     (Some err, st2) \<Rightarrow> (Some err, st2)
                   | (None, st2) \<Rightarrow>
                       if fsync then file_Sync e \<lparr>fname = p, foffset = 0\<rparr> st2
                       else (None, st2)))"
    using nr inc sized by (simp add: ApplyFileIncrement_def opened_def Let_def)
  from ok obtain nd where nd: "opened = Some nd"
    unfolding A by (cases opened) auto
  obtain base m where ndr: "nd = Regular base m"
    and base: "if createNew then base = replicate (finalSize inc) 0
               else \<exists>m0. files st (path_Clean p) = Some (Regular base m0)"
    using nd unfolding opened_def
    by (auto split: if_splits option.splits node.splits)
  let ?st2 = "put_node p nd ?st1"
  let ?wb = "write_blocks e (blockSize w) p (blocks inc) ?st2"
  have wok: "fst ?wb = None"
    using ok unfolding A nd by (cases ?wb) (auto split: option.splits)
  have f2: "files ?st2 (path_Clean p) = Some (Regular base m)"
    by (simp add: put_node_def called_def ndr)
  from write_blocks_ok [OF f2 wok]
  have f3: "files (snd ?wb) (path_Clean p) =
              Some (Regular (apply_blocks (blockSize w) base (blocks inc)) m)" .
  have "files (snd (ApplyFileIncrement e w p r createNew fsync st)) (path_Clean p) =
          Some (Regular (apply_blocks (blockSize w) base (blocks inc)) m)"
    unfolding A nd using wok f3
    by (cases ?wb) (auto simp: file_Sync_files)
  with inc sized base show ?thesis
    by (intro exI [of _ inc] exI [of _ base] exI [of _ m]) (auto simp: list_all_iff)
qed

lemma ApplyFileIncrement_calls:
  "\<exists>cs. calls (snd (ApplyFileIncrement e w p r createNew fsync st)) = calls st @ cs \<and>
        (\<forall>c \<in> set cs. \<not> is_copy c \<and> (is_fsync c \<longrightarrow> fsync)) \<and>
        (cs = [] \<longrightarrow> fst (ApplyFileIncrement e w p r createNew fsync st) \<noteq> None)"
proof (cases "rerr r \<or> decode w (rdata r) = None \<or>
              \<not> list_all (\<lambda>(n, b). length b = blockSize w) (blocks (the (decode w (rdata r))))")
  case True
  then have "calls (snd (ApplyFileIncrement e w p r createNew fsync st)) = calls st @ [] \<and>
             fst (ApplyFileIncrement e w p r createNew fsync st) \<noteq> None"
    by (auto simp: ApplyFileIncrement_def split: option.splits)
  then show ?thesis by (intro exI [of _ "[]"]) simp
next
  case False
  then obtain inc where nr: "\<not> rerr r" and inc: "decode w (rdata r) = Some inc"
    and sized: "list_all (\<lambda>(n, b). length b = blockSize w) (blocks inc)" by auto
  let ?c = "SysOpenFile p"
  let ?st1 = "called ?c st"
  define opened where "opened =
     (if fails e ?c then None
      else case files st (path_Clean p) of
             None \<Rightarrow> if createNew then Some (Regular (replicate (finalSize inc) 0) 438) else None
           | Some (Regular bytes m) \<Rightarrow>
               Some (Regular (if createNew then replicate (finalSize inc) 0 else bytes) m)
           | Some _ \<Rightarrow> None)"
  have A: "ApplyFileIncrement e w p r createNew fsync st =
             (case opened of
                None \<Rightarrow> (Some (OsError ?c), ?st1)
              | Some nd \<Rightarrow>
                  (case write_blocks e (blockSize w) p (blocks inc) (put_node p nd ?st1) of
                     (Some err, st2) \<Rightarrow> (Some err, st2)
                   | (None, st2) \<Rightarrow>
                       if fsync then file_Sync e \<lparr>fname = p, foffset = 0\<rparr> st2
                       else (None, st2)))"
    using nr inc sized by (simp add: ApplyFileIncrement_def opened_def Let_def)
  show ?thesis
  proof (cases opened)
    case None
    have "calls (snd (ApplyFileIncrement e w p r createNew fsync st)) = calls st @ [?c]"
      unfolding A None by (simp add: called_def)
    moreover have "\<forall>c \<in> set [?c]. \<not> is_copy c \<and> (is_fsync c \<longrightarrow> fsync)"
      by (simp add: is_copy_def is_fsync_def)
    ultimately show ?thesis by (intro exI [of _ "[?c]"]) simp
  next
    case (Some nd)
    let ?st2 = "put_node p nd ?st1"
    let ?wb = "write_blocks e (blockSize w) p (blocks inc) ?st2"
    from write_blocks_calls [of e "blockSize w" p "blocks inc" ?st2]
    obtain cs where cs: "calls (snd ?wb) = calls ?st2 @ cs" "\<forall>c \<in> set cs. is_write_at c"
      by blast
    have c2: "calls ?st2 = calls st @ [?c]" by (simp add: put_node_def called_def)
    have wa: "\<forall>c \<in> set cs. \<not> is_copy c \<and> \<not> is_fsync c"
      using cs(2) by (auto simp: is_write_at_def is_copy_def is_fsync_def split: syscall.splits)
    define cs' where "cs' = ?c # cs @ (if fst ?wb = None \<and> fsync then [SysFsync p] else [])"
    have 1: "calls (snd (ApplyFileIncrement e w p r createNew fsync st)) = calls st @ cs'"
      unfolding A Some cs'_def using cs(1) c2
      by (cases ?wb) (auto simp: file_Sync_calls split: option.splits)
    have 2: "\<forall>c \<in> set cs'. \<not> is_copy c \<and> (is_fsync c \<longrightarrow> fsync)"
      unfolding cs'_def using wa by (auto simp: is_copy_def is_fsync_def)
    have 3: "cs' = [] \<longrightarrow> fst (ApplyFileIncrement e w p r createNew fsync st) \<noteq> None"
      by (simp add: cs'_def)
    from 1 2 3 show ?thesis by blast
  qed
qed

subsection \<open>The three ways through unwrapRegularFileOld\<close>

lemma apply_blocks_empty:
  "\<forall>(n, b) \<in> set bs. b = [] \<Longrightarrow> apply_blocks S c bs = c"
  by (induction bs arbitrary: c) (auto simp: apply_blocks_Nil apply_blocks_Cons write_at_def)

lemma apply_blocks_block:
  assumes sized: "\<forall>(n, b) \<in> set bs. length b = S"
      and n: "n \<in> fst ` set bs"
  shows "\<exists>b. (n, b) \<in> set bs \<and> map_of (rev bs) n = Some b \<and>
             take S (drop (n * S) (apply_blocks S base bs)) = b"
proof -
  from n have "n \<in> fst ` set (rev bs)" by simp
  then obtain b where m: "map_of (rev bs) n = Some b"
    by (metis map_of_eq_None_iff not_Some_eq)
  then have mem: "(n, b) \<in> set bs" by (auto dest: map_of_SomeD)
  with sized have lb: "length b = S" by auto
  let ?c = "apply_blocks S base bs"
  have "take S (drop (n * S) ?c) = b"
  proof (cases "S = 0")
    case True
    with lb show ?thesis by simp
  next
    case False
    then have S: "0 < S" by simp
    with lb have "b \<noteq> []" by auto
    from length_apply_blocks_block [OF mem this, of S base] lb
    have len: "n * S + S \<le> length ?c" by simp
    show ?thesis
    proof (rule nth_equalityI)
      show "length (take S (drop (n * S) ?c)) = length b"
        using len lb by simp
    next
      fix j assume "j < length (take S (drop (n * S) ?c))"
      then have j: "j < S" by simp
      with len have i: "n * S + j < length ?c" by simp
      have d: "(n * S + j) div S = n"
        using block_range_div [OF S, of n "n * S + j"] j by simp
      have md: "(n * S + j) mod S = j" using j by simp
      have "take S (drop (n * S) ?c) ! j = ?c ! (n * S + j)"
        using j len by simp
      also have "\<dots> = b ! j"
        using nth_apply_blocks [OF sized S i] m d md by simp
      finally show "take S (drop (n * S) ?c) ! j = b ! j" .
    qed
  qed
  with m mem show ?thesis by blast
qed

lemma apply_blocks_untouched:
  assumes sized: "\<forall>(n, b) \<in> set bs. length b = S"
      and i: "i < length (apply_blocks S base bs)"
      and un: "\<forall>(n, b) \<in> set bs. \<not> (n * S \<le> i \<and> i < (n + 1) * S)"
  shows "apply_blocks S base bs ! i = (if i < length base then base ! i else 0)"
proof (cases "S = 0")
  case True
  with sized have "\<forall>(n, b) \<in> set bs. b = []" by auto
  then have "apply_blocks S base bs = base" by (rule apply_blocks_empty)
  with i show ?thesis by simp
next
  case False
  then have S: "0 < S" by simp
  have "map_of (rev bs) (i div S) = None"
  proof (rule ccontr)
    assume "map_of (rev bs) (i div S) \<noteq> None"
    then obtain b where "map_of (rev bs) (i div S) = Some b" by auto
    then have "(i div S, b) \<in> set bs" by (auto dest: map_of_SomeD)
    with un have "\<not> (i div S * S \<le> i \<and> i < (i div S + 1) * S)" by auto
    moreover have "i div S * S \<le> i \<and> i < i div S * S + S"
      using block_range_div [OF S, of "i div S" i] by simp
    ultimately show False by simp
  qed
  with nth_apply_blocks [OF sized S i] show ?thesis by simp
qed

lemma unwrap_excluded:
  "FilesToUnwrap ti = Some m \<Longrightarrow> m (Name h) = None \<Longrightarrow>
   unwrapRegularFileOld e w ti r h p fsync st = (Returns None, st)"
  by (simp add: unwrapRegularFileOld_def)

lemma unwrap_increment:
  assumes "FilesToUnwrap ti = None \<or> (\<exists>m. FilesToUnwrap ti = Some m \<and> m (Name h) \<noteq> None)"
      and "Files (FilesMetadata ti) (Name h) = Some d" and "IsIncremented d"
      and "IsIncremental (Sentinel ti)"
  shows "unwrapRegularFileOld e w ti r h p fsync st =
           (Returns (errors_Wrapf
                       (fst (ApplyFileIncrement e w p r (createNewIncrementalFiles ti) fsync st))
                       (''Interpret: failed to apply increment for '' @ [CHR 0x27] @ ''%s'' @ [CHR 0x27]) p),
            snd (ApplyFileIncrement e w p r (createNewIncrementalFiles ti) fsync st))"
  using assms
  by (cases "ApplyFileIncrement e w p r (createNewIncrementalFiles ti) fsync st")
     (auto simp: unwrapRegularFileOld_def)

lemma unwrap_full:
  assumes "FilesToUnwrap ti = None \<or> (\<exists>m. FilesToUnwrap ti = Some m \<and> m (Name h) \<noteq> None)"
      and "\<not> (\<exists>d. Files (FilesMetadata ti) (Name h) = Some d \<and> IsIncremented d \<and>
                  IsIncremental (Sentinel ti))"
  shows "unwrapRegularFileOld e w ti r h p fsync st =
          (case PrepareDirs e (Name h) p st of
             (Some err, st1) \<Rightarrow>
               (Returns (Some (Wrap err ''Interpret: failed to create all directories'')), st1)
           | (None, st1) \<Rightarrow>
               (case os_OpenFile e p st1 of
                  (Inl err, st2) \<Rightarrow>
                    (Returns (Some (Wrapf err (''failed to create new file: '' @ [CHR 0x27] @ ''%s'' @ [CHR 0x27]) p)), st2)
                | (Inr fl, st2) \<Rightarrow>
                    (case WriteLocalFile e r h fl fsync st2 of
                       (Exits, st3) \<Rightarrow> (Exits, st3)
                     | (Returns res, st3) \<Rightarrow> (Returns res, LoggedClose fl st3))))"
proof -
  have c1: "(case FilesToUnwrap ti of None \<Rightarrow> False | Some m \<Rightarrow> m (Name h) = None) = False"
    using assms(1) by (auto split: option.splits)
  have c2: "(case Files (FilesMetadata ti) (Name h) of None \<Rightarrow> False
             | Some fd \<Rightarrow> IsIncremental (Sentinel ti) \<and> IsIncremented fd) = False"
    using assms(2) by (auto split: option.splits)
  show ?thesis
    unfolding unwrapRegularFileOld_def c1 c2
    by (simp add: errors_Wrap_def errors_Wrapf_def
             cong: option.case_cong sum.case_cong prod.case_cong outcome.case_cong)
qed

lemma unwrap_full_success:
  assumes acc: "FilesToUnwrap ti = None \<or> (\<exists>m. FilesToUnwrap ti = Some m \<and> m (Name h) \<noteq> None)"
      and full: "\<not> (\<exists>d. Files (FilesMetadata ti) (Name h) = Some d \<and> IsIncremented d \<and>
                  IsIncremental (Sentinel ti))"
      and ok: "fst (unwrapRegularFileOld e w ti r h p fsync st) = Returns None"
  shows "files (snd (unwrapRegularFileOld e w ti r h p fsync st)) (path_Clean p) =
           Some (Regular (rdata r) (syscallMode (os_FileMode (Mode h))))"
proof -
  note U = unwrap_full [OF acc full, of e w r p fsync st]
  obtain e1 st1 where pd: "PrepareDirs e (Name h) p st = (e1, st1)" by (cases "PrepareDirs e (Name h) p st")
  have e1: "e1 = None" using ok by (cases e1) (auto simp: U pd)
  obtain o2 st2 where op: "os_OpenFile e p st1 = (o2, st2)" by (cases "os_OpenFile e p st1")
  obtain fl where o2: "o2 = Inr fl" using ok by (cases o2) (auto simp: U pd e1 op)
  from os_OpenFile_ok [of e p st1 fl] op o2
  have fl: "fl = \<lparr>fname = p, foffset = 0\<rparr>"
    and f2: "\<exists>m. files st2 (path_Clean p) = Some (Regular [] m)" by auto
  from f2 obtain m where f2': "files st2 (path_Clean (fname fl)) = Some (Regular [] m)"
    using fl by auto
  obtain o3 st3 where wl: "WriteLocalFile e r h fl fsync st2 = (o3, st3)"
    by (cases "WriteLocalFile e r h fl fsync st2")
  have o3: "o3 = Returns None" using ok by (cases o3) (auto simp: U pd e1 op o2 wl)
  from WriteLocalFile_success [of e r h fl fsync st2, OF _ f2'] wl o3
  have "files st3 (path_Clean p) = Some (Regular (rdata r) (syscallMode (os_FileMode (Mode h))))"
    using fl by (simp add: write_at_empty)
  then show ?thesis
    by (simp add: U pd e1 op o2 wl o3 LoggedClose_files)
qed

lemma unwrap_full_calls:
  assumes acc: "FilesToUnwrap ti = None \<or> (\<exists>m. FilesToUnwrap ti = Some m \<and> m (Name h) \<noteq> None)"
      and full: "\<not> (\<exists>d. Files (FilesMetadata ti) (Name h) = Some d \<and> IsIncremented d \<and>
                  IsIncremental (Sentinel ti))"
  shows "\<exists>cs. calls (snd (unwrapRegularFileOld e w ti r h p fsync st)) = calls st @ cs \<and>
              (\<forall>c \<in> set cs. \<not> is_write_at c \<and> (is_fsync c \<longrightarrow> fsync)) \<and>
              (cs = [] \<longrightarrow> fst (unwrapRegularFileOld e w ti r h p fsync st) \<noteq> Returns None)"
proof -
  note U = unwrap_full [OF acc full, of e w r p fsync st]
  obtain e1 st1 where pd: "PrepareDirs e (Name h) p st = (e1, st1)" by (cases "PrepareDirs e (Name h) p st")
  from PrepareDirs_calls [of e "Name h" p st] pd obtain c1 where
    c1: "calls st1 = calls st @ c1" "\<forall>c \<in> set c1. \<not> is_write_at c \<and> \<not> is_fsync c"
    by (cases "Name h = p") (auto simp: is_write_at_def is_fsync_def)
  show ?thesis
  proof (cases e1)
    case (Some err)
    then show ?thesis using c1 by (simp add: U pd)
  next
    case None
    obtain o2 st2 where op: "os_OpenFile e p st1 = (o2, st2)" by (cases "os_OpenFile e p st1")
    from os_OpenFile_calls [of e p st1] op
    have c2: "calls st2 = calls st @ (c1 @ [SysOpenFile p])" using c1 by simp
    show ?thesis
    proof (cases o2)
      case (Inl err)
      have "\<forall>c \<in> set (c1 @ [SysOpenFile p]). \<not> is_write_at c \<and> (is_fsync c \<longrightarrow> fsync)"
        using c1 by (auto simp: is_write_at_def is_fsync_def)
      with c2 show ?thesis
        by (intro exI [of _ "c1 @ [SysOpenFile p]"]) (simp add: U pd None op Inl)
    next
      case (Inr fl)
      obtain o3 st3 where wl: "WriteLocalFile e r h fl fsync st2 = (o3, st3)"
        by (cases "WriteLocalFile e r h fl fsync st2")
      from WriteLocalFile_calls [of e r h fl fsync st2] wl obtain c3 where
        c3: "calls st3 = calls st2 @ c3" "\<forall>c \<in> set c3. \<not> is_write_at c \<and> (is_fsync c \<longrightarrow> fsync)"
        by auto
      show ?thesis
      proof (cases o3)
        case Exits
        have "calls st3 = calls st @ (c1 @ [SysOpenFile p] @ c3)" using c3 c2 by simp
        moreover have "\<forall>c \<in> set (c1 @ [SysOpenFile p] @ c3). \<not> is_write_at c \<and> (is_fsync c \<longrightarrow> fsync)"
          using c1 c3 by (auto simp: is_write_at_def is_fsync_def)
        ultimately show ?thesis
          by (intro exI [of _ "c1 @ [SysOpenFile p] @ c3"]) (simp add: U pd None op Inr wl Exits)
      next
        case (Returns res)
        have "calls (LoggedClose fl st3) = calls st @ (c1 @ [SysOpenFile p] @ c3 @ [SysClose (fname fl)])"
          using c3 c2 by (simp add: LoggedClose_calls)
        moreover have "\<forall>c \<in> set (c1 @ [SysOpenFile p] @ c3 @ [SysClose (fname fl)]).
                         \<not> is_write_at c \<and> (is_fsync c \<longrightarrow> fsync)"
          using c1 c3 by (auto simp: is_write_at_def is_fsync_def)
        ultimately show ?thesis
          by (intro exI [of _ "c1 @ [SysOpenFile p] @ c3 @ [SysClose (fname fl)]"])
             (simp add: U pd None op Inr wl Returns)
      qed
    qed
  qed
qed

lemma errors_Wrapf_None: "(errors_Wrapf err fmt arg = None) = (err = None)"
  by (cases err) (simp_all add: errors_Wrapf_def)

lemma new_calls_append: "calls st' = calls st @ cs \<Longrightarrow> new_calls st st' = cs"
  by (simp add: new_calls_def)

subsection \<open>Cleaned paths and the directories on the way\<close>









lemma join_slash_nonempty: "es \<noteq> [] \<Longrightarrow> \<forall>x \<in> set es. plain x \<Longrightarrow> join_slash es \<noteq> []"
  by (induction es rule: join_slash.induct) (auto simp: plain_def)












lemma unwrap_calls:
  "\<exists>cs. calls (snd (unwrapRegularFileOld e w ti r h p fsync st)) = calls st @ cs \<and>
        (\<forall>c \<in> set cs. is_fsync c \<longrightarrow> fsync)"
proof (cases "FilesToUnwrap ti = None \<or> (\<exists>m. FilesToUnwrap ti = Some m \<and> m (Name h) \<noteq> None)")
  case False
  then obtain m where "FilesToUnwrap ti = Some m" "m (Name h) = None" by auto
  from unwrap_excluded [OF this] show ?thesis by simp
next
  case acc: True
  show ?thesis
  proof (cases "\<exists>d. Files (FilesMetadata ti) (Name h) = Some d \<and> IsIncremented d \<and>
                  IsIncremental (Sentinel ti)")
    case True
    then obtain d where d: "Files (FilesMetadata ti) (Name h) = Some d" "IsIncremented d"
        "IsIncremental (Sentinel ti)" by blast
    from ApplyFileIncrement_calls [of e w p r "createNewIncrementalFiles ti" fsync st]
    show ?thesis unfolding unwrap_increment [OF acc d] by auto
  next
    case False
    from unwrap_full_calls [OF acc False, of e w r p fsync st] show ?thesis by blast
  qed
qed

lemma Interpret_regular:
  "Typeflag h = TypeReg \<or> Typeflag h = TypeRegA \<Longrightarrow>
   Interpret useNew unwrapNew e w ti r h st =
     (if useNew then unwrapNew r h (path_Join (DBDataDirectory ti) (Name h)) False st
      else unwrapRegularFileOld e w ti r h (path_Join (DBDataDirectory ti) (Name h)) False st)"
  by (simp add: Interpret_def Let_def)

subsection \<open>The calls of a successful full-file write, and accepted entries\<close>

lemma WriteLocalFile_success_calls:
  assumes "fst (WriteLocalFile e r h f fsync st) = Returns None"
  shows "calls (snd (WriteLocalFile e r h f fsync st)) =
           calls st @ [SysCopy (fname f), SysFchmod (fname f) (os_FileMode (Mode h))] @
             (if fsync then [SysFsync (fname f)] else [])"
proof (cases "fst (io_Copy e f r st)")
  case (Some a)
  show ?thesis
    using assms unfolding WriteLocalFile_copy_failed [OF Some]
    by (auto split: prod.splits option.splits)
next
  case None
  let ?ch = "file_Chmod e f (os_FileMode (Mode h)) (snd (io_Copy e f r st))"
  have ok: "fst ?ch = None"
    using assms unfolding WriteLocalFile_copy_ok [OF None]
    by (cases ?ch) (auto split: option.splits)
  have c: "calls (snd ?ch) = calls st @ [SysCopy (fname f), SysFchmod (fname f) (os_FileMode (Mode h))]"
    by (simp add: file_Chmod_calls io_Copy_calls)
  show ?thesis
    unfolding WriteLocalFile_copy_ok [OF None] using ok c
    by (cases ?ch) (auto simp: file_Sync_calls)
qed

lemma unwrap_full_success_calls:
  assumes acc: "FilesToUnwrap ti = None \<or> (\<exists>m. FilesToUnwrap ti = Some m \<and> m (Name h) \<noteq> None)"
      and full: "\<not> (\<exists>d. Files (FilesMetadata ti) (Name h) = Some d \<and> IsIncremented d \<and>
                  IsIncremental (Sentinel ti))"
      and ok: "fst (unwrapRegularFileOld e w ti r h p fsync st) = Returns None"
  shows "calls (snd (unwrapRegularFileOld e w ti r h p fsync st)) =
           calls st @
             (if Name h = p then []
              else [SysMkdirAll (strings_TrimSuffix p (filepath_Base (Name h))) 493]) @
             [SysOpenFile p, SysCopy p, SysFchmod p (os_FileMode (Mode h))] @
             (if fsync then [SysFsync p] else []) @ [SysClose p]"
proof -
  note U = unwrap_full [OF acc full, of e w r p fsync st]
  obtain e1 st1 where pd: "PrepareDirs e (Name h) p st = (e1, st1)" by (cases "PrepareDirs e (Name h) p st")
  have e1: "e1 = None" using ok by (cases e1) (auto simp: U pd)
  obtain o2 st2 where op: "os_OpenFile e p st1 = (o2, st2)" by (cases "os_OpenFile e p st1")
  obtain fl where o2: "o2 = Inr fl" using ok by (cases o2) (auto simp: U pd e1 op)
  from os_OpenFile_ok [of e p st1 fl] op o2
  have fl: "fname fl = p" by auto
  obtain o3 st3 where wl: "WriteLocalFile e r h fl fsync st2 = (o3, st3)"
    by (cases "WriteLocalFile e r h fl fsync st2")
  have o3: "o3 = Returns None" using ok by (cases o3) (auto simp: U pd e1 op o2 wl)
  have c1: "calls st1 = calls st @
             (if Name h = p then []
              else [SysMkdirAll (strings_TrimSuffix p (filepath_Base (Name h))) 493])"
    using PrepareDirs_calls [of e "Name h" p st] pd by simp
  have c2: "calls st2 = calls st1 @ [SysOpenFile p]"
    using os_OpenFile_calls [of e p st1] op by simp
  have c3: "calls st3 = calls st2 @ [SysCopy p, SysFchmod p (os_FileMode (Mode h))] @
              (if fsync then [SysFsync p] else [])"
    using WriteLocalFile_success_calls [of e r h fl fsync st2] wl o3 fl by simp
  show ?thesis
    by (simp add: U pd e1 op o2 wl o3 LoggedClose_calls c1 c2 c3 fl)
qed

lemma unwrap_nil_selection:
  assumes "FilesToUnwrap ti = None \<or> (\<exists>m. FilesToUnwrap ti = Some m \<and> m (Name h) \<noteq> None)"
  shows "unwrapRegularFileOld e w ti r h p fsync st =
         unwrapRegularFileOld e w (ti\<lparr>FilesToUnwrap := None\<rparr>) r h p fsync st"
proof -
  have c1: "(case FilesToUnwrap ti of None \<Rightarrow> False | Some m \<Rightarrow> m (Name h) = None) = False"
    using assms by (auto split: option.splits)
  show ?thesis
    unfolding unwrapRegularFileOld_def c1
    by (simp cong: option.case_cong)
qed

lemma unwrap_increment_success:
  assumes acc: "FilesToUnwrap ti = None \<or> (\<exists>m. FilesToUnwrap ti = Some m \<and> m (Name h) \<noteq> None)"
      and d: "Files (FilesMetadata ti) (Name h) = Some d" "IsIncremented d"
             "IsIncremental (Sentinel ti)"
      and ok: "fst (unwrapRegularFileOld e w ti r h p fsync st) = Returns None"
  shows "\<exists>inc base m.
           decode w (rdata r) = Some inc \<and>
           (if createNewIncrementalFiles ti then base = replicate (finalSize inc) 0
            else \<exists>m0. files st (path_Clean p) = Some (Regular base m0)) \<and>
           files (snd (unwrapRegularFileOld e w ti r h p fsync st)) (path_Clean p) =
             Some (Regular (apply_blocks (blockSize w) base (blocks inc)) m)"
proof -
  note U = unwrap_increment [OF acc d]
  have "fst (ApplyFileIncrement e w p r (createNewIncrementalFiles ti) fsync st) = None"
    using ok unfolding U by (simp add: errors_Wrapf_None)
  from ApplyFileIncrement_ok [OF this] obtain inc base m where
    "decode w (rdata r) = Some inc"
    "if createNewIncrementalFiles ti then base = replicate (finalSize inc) 0
     else \<exists>m0. files st (path_Clean p) = Some (Regular base m0)"
    "files (snd (ApplyFileIncrement e w p r (createNewIncrementalFiles ti) fsync st)) (path_Clean p) =
       Some (Regular (apply_blocks (blockSize w) base (blocks inc)) m)"
    by blast
  then show ?thesis
    unfolding U by (intro exI [of _ inc] exI [of _ base] exI [of _ m]) simp
qed

section \<open>The claims about regular files, links and directories\<close>

subsection \<open>Applying an increment\<close>

text \<open>
  Claim C1. Take a regular-file entry that the selection accepts, that the metadata
  index marks as incremented, under an incremental backup, and whose reader decodes
  to an increment stream. After a successful \<open>unwrapRegularFileOld\<close> the target is a
  regular file such that: for every block number \<open>n\<close> in the stream, the bytes from
  \<open>n * blockSize\<close> to \<open>(n + 1) * blockSize\<close> are the bytes the stream gives for \<open>n\<close>
  (the last pair with that number, should a number occur twice); and every byte
  outside all those ranges is zero when create-new-incremental-files is true, and is
  the byte the file had before the call when it is false (the old file is not
  shortened).
\<close>

theorem unwrapRegularFileOld_applies_increment:
  assumes "FilesToUnwrap ti = None \<or> (\<exists>m. FilesToUnwrap ti = Some m \<and> m (Name h) \<noteq> None)"
      and "Files (FilesMetadata ti) (Name h) = Some d" and "IsIncremented d"
      and "IsIncremental (Sentinel ti)"
      and "decode w (rdata r) = Some inc"
      and "fst (unwrapRegularFileOld e w ti r h p fsync st) = Returns None"
  shows "\<exists>c m. files (snd (unwrapRegularFileOld e w ti r h p fsync st)) (path_Clean p) =
                 Some (Regular c m) \<and>
           (\<forall>n \<in> fst ` set (blocks inc).
               \<exists>b. (n, b) \<in> set (blocks inc) \<and> map_of (rev (blocks inc)) n = Some b \<and>
                   take (blockSize w) (drop (n * blockSize w) c) = b) \<and>
           (\<forall>i < length c.
               (\<forall>(n, b) \<in> set (blocks inc). \<not> (n * blockSize w \<le> i \<and> i < (n + 1) * blockSize w)) \<longrightarrow>
               (if createNewIncrementalFiles ti then c ! i = 0
                else \<exists>c0 m0. files st (path_Clean p) = Some (Regular c0 m0) \<and>
                       length c0 \<le> length c \<and> (i < length c0 \<longrightarrow> c ! i = c0 ! i)))"
proof -
  let ?A = "ApplyFileIncrement e w p r (createNewIncrementalFiles ti) fsync st"
  note U = unwrap_increment [OF assms(1-4)]
  have ok: "fst ?A = None"
    using assms(6) unfolding U by (simp add: errors_Wrapf_None)
  from ApplyFileIncrement_ok [OF ok] assms(5) obtain base m where
    sized: "\<forall>(n, b) \<in> set (blocks inc). length b = blockSize w"
    and base: "if createNewIncrementalFiles ti then base = replicate (finalSize inc) 0
               else \<exists>m0. files st (path_Clean p) = Some (Regular base m0)"
    and f: "files (snd ?A) (path_Clean p) =
              Some (Regular (apply_blocks (blockSize w) base (blocks inc)) m)"
    by auto
  let ?c = "apply_blocks (blockSize w) base (blocks inc)"
  have 1: "\<forall>n \<in> fst ` set (blocks inc).
               \<exists>b. (n, b) \<in> set (blocks inc) \<and> map_of (rev (blocks inc)) n = Some b \<and>
                   take (blockSize w) (drop (n * blockSize w) ?c) = b"
    using apply_blocks_block [OF sized] by blast
  have 2: "\<forall>i < length ?c.
               (\<forall>(n, b) \<in> set (blocks inc). \<not> (n * blockSize w \<le> i \<and> i < (n + 1) * blockSize w)) \<longrightarrow>
               (if createNewIncrementalFiles ti then ?c ! i = 0
                else \<exists>c0 m0. files st (path_Clean p) = Some (Regular c0 m0) \<and>
                       length c0 \<le> length ?c \<and> (i < length c0 \<longrightarrow> ?c ! i = c0 ! i))"
  proof (intro allI impI)
    fix i assume i: "i < length ?c"
      and un: "\<forall>(n, b) \<in> set (blocks inc). \<not> (n * blockSize w \<le> i \<and> i < (n + 1) * blockSize w)"
    note v = apply_blocks_untouched [OF sized i un]
    show "if createNewIncrementalFiles ti then ?c ! i = 0
          else \<exists>c0 m0. files st (path_Clean p) = Some (Regular c0 m0) \<and>
                 length c0 \<le> length ?c \<and> (i < length c0 \<longrightarrow> ?c ! i = c0 ! i)"
    proof (cases "createNewIncrementalFiles ti")
      case True
      with base v show ?thesis by simp
    next
      case False
      with base obtain m0 where "files st (path_Clean p) = Some (Regular base m0)" by auto
      with False v length_apply_blocks_ge [of base "blockSize w" "blocks inc"]
      show ?thesis by auto
    qed
  qed
  from f 1 2 show ?thesis unfolding U by auto
qed

text \<open>The spec's example: blocks 0 and 2 of size 4 over a file of twelve bytes; the
  middle block keeps its bytes.\<close>

theorem unwrapRegularFileOld_applies_increment_witness:
  "(FilesToUnwrap ti_incr = None \<or>
      (\<exists>m. FilesToUnwrap ti_incr = Some m \<and> m (Name header_reg) \<noteq> None))
   \<and> Files (FilesMetadata ti_incr) (Name header_reg) = Some \<lparr>IsIncremented = True\<rparr>
   \<and> IsIncremental (Sentinel ti_incr)
   \<and> decode wire_ex (rdata reader_incr) = Some inc_ex
   \<and> fst (unwrapRegularFileOld env_ok wire_ex ti_incr reader_incr header_reg
             ''/data/base/1/16384'' False st_base) = Returns None
   \<and> files (snd (unwrapRegularFileOld env_ok wire_ex ti_incr reader_incr header_reg
                   ''/data/base/1/16384'' False st_base)) ''/data/base/1/16384'' =
       Some (Regular [88, 88, 88, 88, 66, 66, 66, 66, 90, 90, 90, 90] 420)"
proof -
  have h1: "FilesToUnwrap ti_incr = None \<or>
      (\<exists>m. FilesToUnwrap ti_incr = Some m \<and> m (Name header_reg) \<noteq> None)"
    by (auto simp: ti_incr_def header_reg_def)
  have h2: "Files (FilesMetadata ti_incr) (Name header_reg) = Some \<lparr>IsIncremented = True\<rparr>"
    by (simp add: ti_incr_def header_reg_def)
  have h3: "IsIncremented \<lparr>IsIncremented = True\<rparr>" by simp
  have h4: "IsIncremental (Sentinel ti_incr)" by (simp add: ti_incr_def)
  have h5: "decode wire_ex (rdata reader_incr) = Some inc_ex" by code_simp
  have h6: "fst (unwrapRegularFileOld env_ok wire_ex ti_incr reader_incr header_reg
             ''/data/base/1/16384'' False st_base) = Returns None" by code_simp
  have r: "files (snd (unwrapRegularFileOld env_ok wire_ex ti_incr reader_incr header_reg
                   ''/data/base/1/16384'' False st_base)) ''/data/base/1/16384'' =
       Some (Regular [88, 88, 88, 88, 66, 66, 66, 66, 90, 90, 90, 90] 420)" by code_simp
  from unwrapRegularFileOld_applies_increment [OF h1 h2 h3 h4 h5 h6] h1 h2 h4 h5 h6 r
  show ?thesis by blast
qed

subsection \<open>Selective restore\<close>

text \<open>
  Claim C6. The entry is acted on (the call makes an operating-system call or returns
  an error) whenever no selection is configured, that is \<open>FilesToUnwrap\<close> is nil; with
  a selection configured it is acted on exactly when its name is a key of the
  selection. An entry that is not selected returns no error and leaves the whole
  state as it was: no file is created or changed and no call is made. For an entry
  that is accepted, the call does exactly what it does when no selection is
  configured, and when it succeeds the entry is materialized: for an incremented
  entry of an incremental backup the target file holds the blocks of the increment
  written over its base; for every other entry the target file holds exactly the
  reader's bytes with the entry's permission bits, and the calls made are the
  directory creation (unless name and target path are equal), the open, the copy, the
  chmod, the fsync when asked, and the close.
\<close>

theorem unwrapRegularFileOld_selection:
  "(FilesToUnwrap ti = None \<longrightarrow>
      (fst (unwrapRegularFileOld e w ti r h p fsync st) \<noteq> Returns None \<or>
       calls (snd (unwrapRegularFileOld e w ti r h p fsync st)) \<noteq> calls st))
   \<and> (\<forall>m. FilesToUnwrap ti = Some m \<longrightarrow>
      ((fst (unwrapRegularFileOld e w ti r h p fsync st) \<noteq> Returns None \<or>
        calls (snd (unwrapRegularFileOld e w ti r h p fsync st)) \<noteq> calls st)
       = (Name h \<in> dom m)))
   \<and> (\<forall>m. FilesToUnwrap ti = Some m \<and> Name h \<notin> dom m \<longrightarrow>
        unwrapRegularFileOld e w ti r h p fsync st = (Returns None, st))
   \<and> ((FilesToUnwrap ti = None \<or> (\<exists>m. FilesToUnwrap ti = Some m \<and> Name h \<in> dom m)) \<longrightarrow>
        unwrapRegularFileOld e w ti r h p fsync st =
          unwrapRegularFileOld e w (ti\<lparr>FilesToUnwrap := None\<rparr>) r h p fsync st \<and>
        (fst (unwrapRegularFileOld e w ti r h p fsync st) = Returns None \<longrightarrow>
           (if (\<exists>d. Files (FilesMetadata ti) (Name h) = Some d \<and> IsIncremented d) \<and>
                   IsIncremental (Sentinel ti)
            then \<exists>inc base m.
                     decode w (rdata r) = Some inc \<and>
                     (if createNewIncrementalFiles ti then base = replicate (finalSize inc) 0
                      else \<exists>m0. files st (path_Clean p) = Some (Regular base m0)) \<and>
                     files (snd (unwrapRegularFileOld e w ti r h p fsync st)) (path_Clean p) =
                       Some (Regular (apply_blocks (blockSize w) base (blocks inc)) m)
            else files (snd (unwrapRegularFileOld e w ti r h p fsync st)) (path_Clean p) =
                     Some (Regular (rdata r) (syscallMode (os_FileMode (Mode h)))) \<and>
                   calls (snd (unwrapRegularFileOld e w ti r h p fsync st)) =
                     calls st @
                       (if Name h = p then []
                        else [SysMkdirAll (strings_TrimSuffix p (filepath_Base (Name h))) 493]) @
                       [SysOpenFile p, SysCopy p, SysFchmod p (os_FileMode (Mode h))] @
                       (if fsync then [SysFsync p] else []) @ [SysClose p])))"
proof -
  let ?U = "unwrapRegularFileOld e w ti r h p fsync st"
  let ?inc = "\<exists>d. Files (FilesMetadata ti) (Name h) = Some d \<and> IsIncremented d \<and>
                  IsIncremental (Sentinel ti)"
  have skip: "?U = (Returns None, st)" if "FilesToUnwrap ti = Some m" "Name h \<notin> dom m" for m
    using that unwrap_excluded [of ti m h] by (auto simp: domIff)
  have acts: "fst ?U \<noteq> Returns None \<or> calls (snd ?U) \<noteq> calls st"
    if acc: "FilesToUnwrap ti = None \<or> (\<exists>m. FilesToUnwrap ti = Some m \<and> m (Name h) \<noteq> None)"
  proof (cases ?inc)
    case True
    then obtain d where d: "Files (FilesMetadata ti) (Name h) = Some d" "IsIncremented d"
      "IsIncremental (Sentinel ti)" by blast
    note U = unwrap_increment [OF acc d]
    from ApplyFileIncrement_calls [of e w p r "createNewIncrementalFiles ti" fsync st]
    show ?thesis unfolding U by (auto simp: errors_Wrapf_None)
  next
    case False
    from unwrap_full_calls [OF acc False, of e w r p fsync st] show ?thesis by auto
  qed
  have post: "if (\<exists>d. Files (FilesMetadata ti) (Name h) = Some d \<and> IsIncremented d) \<and>
                   IsIncremental (Sentinel ti)
              then \<exists>inc base m.
                     decode w (rdata r) = Some inc \<and>
                     (if createNewIncrementalFiles ti then base = replicate (finalSize inc) 0
                      else \<exists>m0. files st (path_Clean p) = Some (Regular base m0)) \<and>
                     files (snd (unwrapRegularFileOld e w ti r h p fsync st)) (path_Clean p) =
                       Some (Regular (apply_blocks (blockSize w) base (blocks inc)) m)
              else files (snd (unwrapRegularFileOld e w ti r h p fsync st)) (path_Clean p) =
                     Some (Regular (rdata r) (syscallMode (os_FileMode (Mode h)))) \<and>
                   calls (snd (unwrapRegularFileOld e w ti r h p fsync st)) =
                     calls st @
                       (if Name h = p then []
                        else [SysMkdirAll (strings_TrimSuffix p (filepath_Base (Name h))) 493]) @
                       [SysOpenFile p, SysCopy p, SysFchmod p (os_FileMode (Mode h))] @
                       (if fsync then [SysFsync p] else []) @ [SysClose p]"
    if acc: "FilesToUnwrap ti = None \<or> (\<exists>m. FilesToUnwrap ti = Some m \<and> m (Name h) \<noteq> None)"
      and ok: "fst ?U = Returns None"
  proof (cases ?inc)
    case True
    then obtain d where d: "Files (FilesMetadata ti) (Name h) = Some d" "IsIncremented d"
      "IsIncremental (Sentinel ti)" by blast
    have c: "(\<exists>d. Files (FilesMetadata ti) (Name h) = Some d \<and> IsIncremented d) \<and>
                   IsIncremental (Sentinel ti)"
      using d by blast
    from unwrap_increment_success [OF acc d ok] show ?thesis
      unfolding if_P [OF c] .
  next
    case False
    then have c: "\<not> ((\<exists>d. Files (FilesMetadata ti) (Name h) = Some d \<and> IsIncremented d) \<and>
                   IsIncremental (Sentinel ti))"
      by blast
    from unwrap_full_success [OF acc False ok] unwrap_full_success_calls [OF acc False ok]
    show ?thesis unfolding if_not_P [OF c] by (rule conjI)
  qed
  show ?thesis
  proof (intro conjI allI impI)
    assume "FilesToUnwrap ti = None"
    then show "fst ?U \<noteq> Returns None \<or> calls (snd ?U) \<noteq> calls st" by (intro acts) simp
  next
    fix m assume m: "FilesToUnwrap ti = Some m"
    show "(fst ?U \<noteq> Returns None \<or> calls (snd ?U) \<noteq> calls st) = (Name h \<in> dom m)"
    proof (cases "Name h \<in> dom m")
      case True
      with m have "FilesToUnwrap ti = None \<or> (\<exists>m. FilesToUnwrap ti = Some m \<and> m (Name h) \<noteq> None)"
        by auto
      from acts [OF this] True show ?thesis by simp
    next
      case False
      with skip [OF m] show ?thesis by simp
    qed
  next
    fix m assume "FilesToUnwrap ti = Some m \<and> Name h \<notin> dom m"
    then show "?U = (Returns None, st)" using skip by blast
  next
    assume "FilesToUnwrap ti = None \<or> (\<exists>m. FilesToUnwrap ti = Some m \<and> Name h \<in> dom m)"
    then have "FilesToUnwrap ti = None \<or> (\<exists>m. FilesToUnwrap ti = Some m \<and> m (Name h) \<noteq> None)"
      by auto
    then show "?U = unwrapRegularFileOld e w (ti\<lparr>FilesToUnwrap := None\<rparr>) r h p fsync st"
      by (rule unwrap_nil_selection)
  next
    assume a: "FilesToUnwrap ti = None \<or> (\<exists>m. FilesToUnwrap ti = Some m \<and> Name h \<in> dom m)"
      and ok: "fst ?U = Returns None"
    from a have "FilesToUnwrap ti = None \<or> (\<exists>m. FilesToUnwrap ti = Some m \<and> m (Name h) \<noteq> None)"
      by auto
    from post [OF this ok]
    show "if (\<exists>d. Files (FilesMetadata ti) (Name h) = Some d \<and> IsIncremented d) \<and>
                   IsIncremental (Sentinel ti)
          then \<exists>inc base m.
                     decode w (rdata r) = Some inc \<and>
                     (if createNewIncrementalFiles ti then base = replicate (finalSize inc) 0
                      else \<exists>m0. files st (path_Clean p) = Some (Regular base m0)) \<and>
                     files (snd (unwrapRegularFileOld e w ti r h p fsync st)) (path_Clean p) =
                       Some (Regular (apply_blocks (blockSize w) base (blocks inc)) m)
          else files (snd (unwrapRegularFileOld e w ti r h p fsync st)) (path_Clean p) =
                     Some (Regular (rdata r) (syscallMode (os_FileMode (Mode h)))) \<and>
                   calls (snd (unwrapRegularFileOld e w ti r h p fsync st)) =
                     calls st @
                       (if Name h = p then []
                        else [SysMkdirAll (strings_TrimSuffix p (filepath_Base (Name h))) 493]) @
                       [SysOpenFile p, SysCopy p, SysFchmod p (os_FileMode (Mode h))] @
                       (if fsync then [SysFsync p] else []) @ [SysClose p]" .
  qed
qed

text \<open>Without a selection the entry is written with its content and mode; with a
  selection that does not hold its name nothing happens; with one that holds its
  name the increment is applied.\<close>

theorem unwrapRegularFileOld_selection_witness:
  "FilesToUnwrap ti_full = None
   \<and> fst (unwrapRegularFileOld env_ok wire_ex ti_full reader_AAAA header_reg
             ''/data/base/1/16384'' False st_empty) = Returns None
   \<and> files (snd (unwrapRegularFileOld env_ok wire_ex ti_full reader_AAAA header_reg
                   ''/data/base/1/16384'' False st_empty)) ''/data/base/1/16384'' =
       Some (Regular [65, 65, 65, 65] 420)
   \<and> calls (snd (unwrapRegularFileOld env_ok wire_ex ti_full reader_AAAA header_reg
                   ''/data/base/1/16384'' False st_empty)) =
       [SysMkdirAll ''/data/base/1/'' 493, SysOpenFile ''/data/base/1/16384'',
        SysCopy ''/data/base/1/16384'', SysFchmod ''/data/base/1/16384'' 420,
        SysClose ''/data/base/1/16384'']
   \<and> FilesToUnwrap ti_select = Some [''pg_tblspc/1/x'' \<mapsto> True]
   \<and> Name header_reg \<notin> dom [''pg_tblspc/1/x'' \<mapsto> True]
   \<and> unwrapRegularFileOld env_ok wire_ex ti_select reader_AAAA header_reg
         ''/data/base/1/16384'' False st_empty = (Returns None, st_empty)
   \<and> FilesToUnwrap ti_incr = Some [''base/1/16384'' \<mapsto> True]
   \<and> Name header_reg \<in> dom [''base/1/16384'' \<mapsto> True]
   \<and> calls (snd (unwrapRegularFileOld env_ok wire_ex ti_incr reader_incr header_reg
                   ''/data/base/1/16384'' False st_base)) \<noteq> calls st_base"
proof -
  have a1: "FilesToUnwrap ti_full = None" by (simp add: ti_full_def)
  have a2: "fst (unwrapRegularFileOld env_ok wire_ex ti_full reader_AAAA header_reg
             ''/data/base/1/16384'' False st_empty) = Returns None" by code_simp
  have a3: "\<not> ((\<exists>d. Files (FilesMetadata ti_full) (Name header_reg) = Some d \<and> IsIncremented d) \<and>
                IsIncremental (Sentinel ti_full))"
    by (simp add: ti_full_def)
  have b1: "FilesToUnwrap ti_select = Some [''pg_tblspc/1/x'' \<mapsto> True]"
    by (simp add: ti_select_def)
  have b2: "Name header_reg \<notin> dom [''pg_tblspc/1/x'' \<mapsto> True]"
    by (simp add: header_reg_def)
  have c1: "FilesToUnwrap ti_incr = Some [''base/1/16384'' \<mapsto> True]"
    by (simp add: ti_incr_def)
  have c2: "Name header_reg \<in> dom [''base/1/16384'' \<mapsto> True]"
    by (simp add: header_reg_def)
  have c3: "fst (unwrapRegularFileOld env_ok wire_ex ti_incr reader_incr header_reg
             ''/data/base/1/16384'' False st_base) = Returns None" by code_simp
  have k: "path_Clean ''/data/base/1/16384'' = ''/data/base/1/16384''" by code_simp
  have d: "strings_TrimSuffix ''/data/base/1/16384'' (filepath_Base (Name header_reg)) =
             ''/data/base/1/''" by code_simp
  have v: "rdata reader_AAAA = [65, 65, 65, 65]" "os_FileMode (Mode header_reg) = 420"
    "Name header_reg \<noteq> ''/data/base/1/16384''" "calls st_empty = []"
    by (simp_all add: reader_AAAA_def header_reg_def os_FileMode_def st_empty_def)
  have sm: "syscallMode 420 = 420" by code_simp
  note A = unwrapRegularFileOld_selection [of ti_full env_ok wire_ex reader_AAAA header_reg
             "''/data/base/1/16384''" False st_empty]
  note B = unwrapRegularFileOld_selection [of ti_select env_ok wire_ex reader_AAAA header_reg
             "''/data/base/1/16384''" False st_empty]
  note C = unwrapRegularFileOld_selection [of ti_incr env_ok wire_ex reader_incr header_reg
             "''/data/base/1/16384''" False st_base]
  have acc: "FilesToUnwrap ti_full = None \<or>
      (\<exists>m. FilesToUnwrap ti_full = Some m \<and> Name header_reg \<in> dom m)"
    using a1 by simp
  note P = A [THEN conjunct2, THEN conjunct2, THEN conjunct2, THEN mp, OF acc,
              THEN conjunct2, THEN mp, OF a2, unfolded if_not_P [OF a3]]
  from P have A1: "files (snd (unwrapRegularFileOld env_ok wire_ex ti_full reader_AAAA
        header_reg ''/data/base/1/16384'' False st_empty)) ''/data/base/1/16384'' =
       Some (Regular [65, 65, 65, 65] 420)"
    and A2: "calls (snd (unwrapRegularFileOld env_ok wire_ex ti_full reader_AAAA header_reg
                   ''/data/base/1/16384'' False st_empty)) =
       [SysMkdirAll ''/data/base/1/'' 493, SysOpenFile ''/data/base/1/16384'',
        SysCopy ''/data/base/1/16384'', SysFchmod ''/data/base/1/16384'' 420,
        SysClose ''/data/base/1/16384'']"
    by (simp_all add: k d v sm)
  from B [THEN conjunct2, THEN conjunct2, THEN conjunct1] b1 b2
  have B1: "unwrapRegularFileOld env_ok wire_ex ti_select reader_AAAA header_reg
         ''/data/base/1/16384'' False st_empty = (Returns None, st_empty)" by blast
  from C [THEN conjunct2, THEN conjunct1] c1 c2 c3
  have C1: "calls (snd (unwrapRegularFileOld env_ok wire_ex ti_incr reader_incr
                   header_reg ''/data/base/1/16384'' False st_base)) \<noteq> calls st_base" by simp
  from a1 a2 A1 A2 b1 b2 B1 c1 c2 C1 show ?thesis by blast
qed

subsection \<open>Increment stream or full content\<close>

text \<open>
  Claim C7. For an accepted regular-file entry: when the metadata index marks the
  entry's name as incremented and the backup is incremental, the reader goes to
  \<open>ApplyFileIncrement\<close> (whose result, wrapped, is the result), it is never copied as
  a whole, and after success the target file holds the blocks of the decoded
  increment written over its base. In every other case (no metadata for the name,
  not incremented, or a backup that is not incremental) no block write is made and,
  when the call succeeds, the target file holds exactly the reader's bytes with the
  permission bits of the entry's mode, and the calls made are those of the full-file
  path: the directory creation (unless name and target path are equal), the open,
  the copy, the chmod, the fsync when asked, and the close.
\<close>

theorem unwrapRegularFileOld_increment_or_full:
  assumes "FilesToUnwrap ti = None \<or> (\<exists>m. FilesToUnwrap ti = Some m \<and> Name h \<in> dom m)"
  shows "((\<exists>d. Files (FilesMetadata ti) (Name h) = Some d \<and> IsIncremented d) \<and>
                   IsIncremental (Sentinel ti) \<longrightarrow>
            unwrapRegularFileOld e w ti r h p fsync st =
              (Returns (errors_Wrapf
                  (fst (ApplyFileIncrement e w p r (createNewIncrementalFiles ti) fsync st))
                  (''Interpret: failed to apply increment for '' @ [CHR 0x27] @ ''%s'' @ [CHR 0x27]) p),
               snd (ApplyFileIncrement e w p r (createNewIncrementalFiles ti) fsync st)) \<and>
            (\<forall>c \<in> set (new_calls st (snd (unwrapRegularFileOld e w ti r h p fsync st))).
                \<not> is_copy c) \<and>
            (fst (unwrapRegularFileOld e w ti r h p fsync st) = Returns None \<longrightarrow>
               (\<exists>inc base m.
                     decode w (rdata r) = Some inc \<and>
                     (if createNewIncrementalFiles ti then base = replicate (finalSize inc) 0
                      else \<exists>m0. files st (path_Clean p) = Some (Regular base m0)) \<and>
                     files (snd (unwrapRegularFileOld e w ti r h p fsync st)) (path_Clean p) =
                       Some (Regular (apply_blocks (blockSize w) base (blocks inc)) m))))
       \<and> (\<not> ((\<exists>d. Files (FilesMetadata ti) (Name h) = Some d \<and> IsIncremented d) \<and>
                   IsIncremental (Sentinel ti)) \<longrightarrow>
            (\<forall>c \<in> set (new_calls st (snd (unwrapRegularFileOld e w ti r h p fsync st))).
                \<not> is_write_at c) \<and>
            (fst (unwrapRegularFileOld e w ti r h p fsync st) = Returns None \<longrightarrow>
               files (snd (unwrapRegularFileOld e w ti r h p fsync st)) (path_Clean p) =
                     Some (Regular (rdata r) (syscallMode (os_FileMode (Mode h)))) \<and>
                   calls (snd (unwrapRegularFileOld e w ti r h p fsync st)) =
                     calls st @
                       (if Name h = p then []
                        else [SysMkdirAll (strings_TrimSuffix p (filepath_Base (Name h))) 493]) @
                       [SysOpenFile p, SysCopy p, SysFchmod p (os_FileMode (Mode h))] @
                       (if fsync then [SysFsync p] else []) @ [SysClose p]))"
proof -
  let ?U = "unwrapRegularFileOld e w ti r h p fsync st"
  from assms have acc: "FilesToUnwrap ti = None \<or> (\<exists>m. FilesToUnwrap ti = Some m \<and> m (Name h) \<noteq> None)"
    by auto
  show ?thesis
  proof (intro conjI impI)
    assume "(\<exists>d. Files (FilesMetadata ti) (Name h) = Some d \<and> IsIncremented d) \<and>
                   IsIncremental (Sentinel ti)"
    then obtain d where d: "Files (FilesMetadata ti) (Name h) = Some d" "IsIncremented d"
        "IsIncremental (Sentinel ti)" by blast
    note U = unwrap_increment [OF acc d]
    show "?U = (Returns (errors_Wrapf
                  (fst (ApplyFileIncrement e w p r (createNewIncrementalFiles ti) fsync st))
                  (''Interpret: failed to apply increment for '' @ [CHR 0x27] @ ''%s'' @ [CHR 0x27]) p),
               snd (ApplyFileIncrement e w p r (createNewIncrementalFiles ti) fsync st))"
      by (rule U)
    from ApplyFileIncrement_calls [of e w p r "createNewIncrementalFiles ti" fsync st]
    obtain cs where "calls (snd ?U) = calls st @ cs" "\<forall>c \<in> set cs. \<not> is_copy c"
      unfolding U by auto
    then show "\<forall>c \<in> set (new_calls st (snd ?U)). \<not> is_copy c"
      by (simp add: new_calls_append)
    show "\<exists>inc base m.
                     decode w (rdata r) = Some inc \<and>
                     (if createNewIncrementalFiles ti then base = replicate (finalSize inc) 0
                      else \<exists>m0. files st (path_Clean p) = Some (Regular base m0)) \<and>
                     files (snd (unwrapRegularFileOld e w ti r h p fsync st)) (path_Clean p) =
                       Some (Regular (apply_blocks (blockSize w) base (blocks inc)) m)"
      if "fst ?U = Returns None"
      by (rule unwrap_increment_success [OF acc d that])
  next
    assume "\<not> ((\<exists>d. Files (FilesMetadata ti) (Name h) = Some d \<and> IsIncremented d) \<and>
                   IsIncremental (Sentinel ti))"
    then have full: "\<not> (\<exists>d. Files (FilesMetadata ti) (Name h) = Some d \<and> IsIncremented d \<and>
                  IsIncremental (Sentinel ti))" by blast
    from unwrap_full_calls [OF acc full, of e w r p fsync st]
    obtain cs where "calls (snd ?U) = calls st @ cs" "\<forall>c \<in> set cs. \<not> is_write_at c"
      by auto
    then show "\<forall>c \<in> set (new_calls st (snd ?U)). \<not> is_write_at c"
      by (simp add: new_calls_append)
    show "files (snd ?U) (path_Clean p) =
            Some (Regular (rdata r) (syscallMode (os_FileMode (Mode h))))"
      if "fst ?U = Returns None"
      by (rule unwrap_full_success [OF acc full that])
    show "calls (snd ?U) =
            calls st @
              (if Name h = p then []
               else [SysMkdirAll (strings_TrimSuffix p (filepath_Base (Name h))) 493]) @
              [SysOpenFile p, SysCopy p, SysFchmod p (os_FileMode (Mode h))] @
              (if fsync then [SysFsync p] else []) @ [SysClose p]"
      if "fst ?U = Returns None"
      by (rule unwrap_full_success_calls [OF acc full that])
  qed
qed

text \<open>The incremented entry of an incremental backup; the spec's end-to-end example
  of a full file; and a full file whose mode is 04755, of which the permission bits
  0755 reach the file.\<close>

theorem unwrapRegularFileOld_increment_or_full_witness:
  "(FilesToUnwrap ti_incr = None \<or>
      (\<exists>m. FilesToUnwrap ti_incr = Some m \<and> Name header_reg \<in> dom m))
   \<and> (\<exists>d. Files (FilesMetadata ti_incr) (Name header_reg) = Some d \<and> IsIncremented d)
   \<and> IsIncremental (Sentinel ti_incr)
   \<and> \<not> list_ex is_copy (new_calls st_base (snd (unwrapRegularFileOld env_ok wire_ex ti_incr
                        reader_incr header_reg ''/data/base/1/16384'' False st_base)))
   \<and> (FilesToUnwrap ti_full = None \<or>
      (\<exists>m. FilesToUnwrap ti_full = Some m \<and> Name header_reg \<in> dom m))
   \<and> \<not> ((\<exists>d. Files (FilesMetadata ti_full) (Name header_reg) = Some d \<and> IsIncremented d) \<and>
         IsIncremental (Sentinel ti_full))
   \<and> fst (unwrapRegularFileOld env_ok wire_ex ti_full reader_AAAA header_reg
             ''/data/base/1/16384'' False st_empty) = Returns None
   \<and> files (snd (unwrapRegularFileOld env_ok wire_ex ti_full reader_AAAA header_reg
                   ''/data/base/1/16384'' False st_empty)) ''/data/base/1/16384'' =
       Some (Regular [65, 65, 65, 65] 420)
   \<and> fst (unwrapRegularFileOld env_ok wire_ex ti_full reader_AAAA header_setuid
             ''/data/base/1/16384'' False st_empty) = Returns None
   \<and> files (snd (unwrapRegularFileOld env_ok wire_ex ti_full reader_AAAA header_setuid
                   ''/data/base/1/16384'' False st_empty)) ''/data/base/1/16384'' =
       Some (Regular [65, 65, 65, 65] 493)"
proof -
  have a1: "FilesToUnwrap ti_incr = None \<or>
      (\<exists>m. FilesToUnwrap ti_incr = Some m \<and> Name header_reg \<in> dom m)"
    by (auto simp: ti_incr_def header_reg_def)
  have a2: "\<exists>d. Files (FilesMetadata ti_incr) (Name header_reg) = Some d \<and> IsIncremented d"
    by (simp add: ti_incr_def header_reg_def)
  have a3: "IsIncremental (Sentinel ti_incr)" by (simp add: ti_incr_def)
  have b1: "FilesToUnwrap ti_full = None \<or>
      (\<exists>m. FilesToUnwrap ti_full = Some m \<and> Name header_reg \<in> dom m)"
    by (simp add: ti_full_def)
  have b2: "\<not> ((\<exists>d. Files (FilesMetadata ti_full) (Name header_reg) = Some d \<and> IsIncremented d) \<and>
         IsIncremental (Sentinel ti_full))"
    by (simp add: ti_full_def)
  have b3: "fst (unwrapRegularFileOld env_ok wire_ex ti_full reader_AAAA header_reg
             ''/data/base/1/16384'' False st_empty) = Returns None" by code_simp
  have c1: "FilesToUnwrap ti_full = None \<or>
      (\<exists>m. FilesToUnwrap ti_full = Some m \<and> Name header_setuid \<in> dom m)"
    by (simp add: ti_full_def)
  have c2: "\<not> ((\<exists>d. Files (FilesMetadata ti_full) (Name header_setuid) = Some d \<and> IsIncremented d) \<and>
         IsIncremental (Sentinel ti_full))"
    by (simp add: ti_full_def)
  have c3: "fst (unwrapRegularFileOld env_ok wire_ex ti_full reader_AAAA header_setuid
             ''/data/base/1/16384'' False st_empty) = Returns None" by code_simp
  have k: "path_Clean ''/data/base/1/16384'' = ''/data/base/1/16384''" by code_simp
  have v: "rdata reader_AAAA = [65, 65, 65, 65]" "os_FileMode (Mode header_reg) = 420"
    "os_FileMode (Mode header_setuid) = 2541"
    by (simp_all add: reader_AAAA_def header_reg_def header_setuid_def os_FileMode_def)
  have sm: "syscallMode 420 = 420" "syscallMode 2541 = 493" by code_simp+
  note A = unwrapRegularFileOld_increment_or_full [OF a1, of env_ok wire_ex reader_incr
             "''/data/base/1/16384''" False st_base]
  note B = unwrapRegularFileOld_increment_or_full [OF b1, of env_ok wire_ex reader_AAAA
             "''/data/base/1/16384''" False st_empty]
  note C = unwrapRegularFileOld_increment_or_full [OF c1, of env_ok wire_ex reader_AAAA
             "''/data/base/1/16384''" False st_empty]
  from A [THEN conjunct1] a2 a3
  have A1: "\<not> list_ex is_copy (new_calls st_base (snd (unwrapRegularFileOld env_ok
        wire_ex ti_incr reader_incr header_reg ''/data/base/1/16384'' False st_base)))"
    unfolding list_ex_iff by blast
  from B [THEN conjunct2, THEN mp, OF b2, THEN conjunct2, THEN mp, OF b3]
  have B1: "files (snd (unwrapRegularFileOld env_ok wire_ex ti_full reader_AAAA
        header_reg ''/data/base/1/16384'' False st_empty)) ''/data/base/1/16384'' =
       Some (Regular [65, 65, 65, 65] 420)"
    by (simp add: k v sm)
  from C [THEN conjunct2, THEN mp, OF c2, THEN conjunct2, THEN mp, OF c3]
  have C1: "files (snd (unwrapRegularFileOld env_ok wire_ex ti_full reader_AAAA
        header_setuid ''/data/base/1/16384'' False st_empty)) ''/data/base/1/16384'' =
       Some (Regular [65, 65, 65, 65] 493)"
    by (simp add: k v sm)
  from a1 a2 a3 A1 b1 b2 b3 B1 c3 C1 show ?thesis by blast
qed

subsection \<open>Hard links and symbolic links\<close>

text \<open>
  What \<open>Interpret\<close> does with a link entry, whatever its \<open>Linkname\<close>: one \<^verbatim>\<open>os.Link\<close> or
  \<^verbatim>\<open>os.Symlink\<close> call from the entry's own name to the target path. When the call
  succeeds the target path is a link recording the entry's own name and no error is
  returned; when it fails the error is returned, wrapped, nothing further is called
  and the files are as before. A target path that exists already makes the call
  fail.
\<close>

lemma Interpret_link_entry:
  "(Typeflag h = TypeLink \<longrightarrow>
      (let p = path_Join (DBDataDirectory ti) (Name h);
           res = Interpret u un e w ti r h st
       in calls (snd res) = calls st @ [SysLink (Name h) p] \<and>
          (case fst (os_Link e (Name h) p st) of
             None \<Rightarrow> fst res = Returns None \<and>
                      files (snd res) = (files st)(path_Clean p \<mapsto> Hardlink (Name h))
           | Some err \<Rightarrow>
               fst res = Returns (Some (Wrapf err ''Interpret: failed to create hardlink %s'' p)) \<and>
               files (snd res) = files st) \<and>
          (files st (path_Clean p) \<noteq> None \<longrightarrow> fst (os_Link e (Name h) p st) \<noteq> None)))
   \<and> (Typeflag h = TypeSymlink \<longrightarrow>
      (let p = path_Join (DBDataDirectory ti) (Name h);
           res = Interpret u un e w ti r h st
       in calls (snd res) = calls st @ [SysSymlink (Name h) p] \<and>
          (case fst (os_Symlink e (Name h) p st) of
             None \<Rightarrow> fst res = Returns None \<and>
                      files (snd res) = (files st)(path_Clean p \<mapsto> Symlink (Name h))
           | Some err \<Rightarrow>
               fst res = Returns (Some (Wrapf err ''Interpret: failed to create symlink %s'' p)) \<and>
               files (snd res) = files st) \<and>
          (files st (path_Clean p) \<noteq> None \<longrightarrow> fst (os_Symlink e (Name h) p st) \<noteq> None)))"
proof (intro conjI impI)
  assume t: "Typeflag h = TypeLink"
  show "let p = path_Join (DBDataDirectory ti) (Name h);
            res = Interpret u un e w ti r h st
        in calls (snd res) = calls st @ [SysLink (Name h) p] \<and>
           (case fst (os_Link e (Name h) p st) of
              None \<Rightarrow> fst res = Returns None \<and>
                       files (snd res) = (files st)(path_Clean p \<mapsto> Hardlink (Name h))
            | Some err \<Rightarrow>
                fst res = Returns (Some (Wrapf err ''Interpret: failed to create hardlink %s'' p)) \<and>
                files (snd res) = files st) \<and>
           (files st (path_Clean p) \<noteq> None \<longrightarrow> fst (os_Link e (Name h) p st) \<noteq> None)"
    unfolding Let_def Interpret_TypeLink [OF t]
    by (simp add: os_Link_calls os_Link_files os_Link_exists errors_Wrapf_def split: option.splits)
next
  assume t: "Typeflag h = TypeSymlink"
  show "let p = path_Join (DBDataDirectory ti) (Name h);
            res = Interpret u un e w ti r h st
        in calls (snd res) = calls st @ [SysSymlink (Name h) p] \<and>
           (case fst (os_Symlink e (Name h) p st) of
              None \<Rightarrow> fst res = Returns None \<and>
                       files (snd res) = (files st)(path_Clean p \<mapsto> Symlink (Name h))
            | Some err \<Rightarrow>
                fst res = Returns (Some (Wrapf err ''Interpret: failed to create symlink %s'' p)) \<and>
                files (snd res) = files st) \<and>
           (files st (path_Clean p) \<noteq> None \<longrightarrow> fst (os_Symlink e (Name h) p st) \<noteq> None)"
    unfolding Let_def Interpret_TypeSymlink [OF t]
    by (simp add: os_Symlink_calls os_Symlink_files os_Symlink_exists errors_Wrapf_def
             split: option.splits)
qed

text \<open>
  Claim C8 says that the link made for a link entry points at the entry's recorded
  target name. At this input the code does otherwise. The entry is a symbolic link
  named \<^verbatim>\<open>pg_tblspc/16385\<close> whose recorded target is \<^verbatim>\<open>/mnt/ts1\<close>, restored under \<^verbatim>\<open>/data\<close>
  where \<^verbatim>\<open>/data/pg_tblspc\<close> exists. \<open>Interpret\<close> returns no error after the single call
  \<^verbatim>\<open>os.Symlink("pg_tblspc/16385", "/data/pg_tblspc/16385")\<close>: the link at the target
  path points at the entry's own name, not at the recorded target.
\<close>

theorem Interpret_symlink_points_at_own_name:
  "Typeflag header_sym = TypeSymlink
   \<and> Name header_sym = ''pg_tblspc/16385''
   \<and> Linkname header_sym = ''/mnt/ts1''
   \<and> fst (Interpret False unwrap_new_ex env_ok wire_ex ti_full reader_AAAA header_sym st_tblspc) =
       Returns None
   \<and> calls (snd (Interpret False unwrap_new_ex env_ok wire_ex ti_full reader_AAAA header_sym
                   st_tblspc)) = [SysSymlink ''pg_tblspc/16385'' ''/data/pg_tblspc/16385'']
   \<and> files (snd (Interpret False unwrap_new_ex env_ok wire_ex ti_full reader_AAAA header_sym
                   st_tblspc)) ''/data/pg_tblspc/16385'' = Some (Symlink ''pg_tblspc/16385'')
   \<and> files (snd (Interpret False unwrap_new_ex env_ok wire_ex ti_full reader_AAAA header_sym
                   st_tblspc)) ''/data/pg_tblspc/16385'' \<noteq> Some (Symlink (Linkname header_sym))"
  by code_simp

subsection \<open>Preparing the parent directory\<close>



subsection \<open>No fsync per file\<close>

text \<open>
  For a regular-file entry \<open>Interpret\<close> calls the unwrap function with the fsync
  argument false, whatever the file sync mode is, and on the old unwrap path it makes
  no fsync call, for any entry, state and environment.
\<close>

lemma Interpret_regular_never_fsyncs:
  assumes "Typeflag h = TypeReg \<or> Typeflag h = TypeRegA" and "\<not> useNew"
  shows "\<forall>c \<in> set (new_calls st (snd (Interpret useNew unwrapNew e w ti r h st))). \<not> is_fsync c"
  using unwrap_calls [of e w ti r h "path_Join (DBDataDirectory ti) (Name h)" False st] assms(2)
  by (auto simp: Interpret_regular [OF assms(1)] new_calls_def)

text \<open>
  Claim C4 says that under the Default mode every regular file that is fully written
  is fsynced individually at write time. At this input the code does otherwise. The
  resolved mode is Default; \<open>Interpret\<close> writes the regular file
  \<^verbatim>\<open>/data/base/1/16384\<close> completely, with its mode, and the calls it makes are the
  directory creation, the open, the copy, the chmod and the close: there is no fsync
  of the file. The only sync of the session is the whole-filesystem sync of
  \<open>OnInterpretFinish\<close>.
\<close>

theorem Interpret_default_mode_no_file_fsync:
  "fst (getFileSyncMode names_ex cfg_default st_empty) = DEFAULT
   \<and> fst (Interpret False unwrap_new_ex env_ok wire_ex ti_full reader_AAAA header_reg st_empty) =
       Returns None
   \<and> files (snd (Interpret False unwrap_new_ex env_ok wire_ex ti_full reader_AAAA header_reg
                   st_empty)) ''/data/base/1/16384'' = Some (Regular [65, 65, 65, 65] 420)
   \<and> calls (snd (Interpret False unwrap_new_ex env_ok wire_ex ti_full reader_AAAA header_reg
                   st_empty)) =
       [SysMkdirAll ''/data/base/1/'' 493, SysOpenFile ''/data/base/1/16384'',
        SysCopy ''/data/base/1/16384'', SysFchmod ''/data/base/1/16384'' 420,
        SysClose ''/data/base/1/16384'']
   \<and> \<not> list_ex is_fsync (calls (snd (Interpret False unwrap_new_ex env_ok wire_ex ti_full
                                       reader_AAAA header_reg st_empty)))
   \<and> calls (snd (OnInterpretFinish names_ex cfg_default env_ok
                   (snd (Interpret False unwrap_new_ex env_ok wire_ex ti_full reader_AAAA
                           header_reg st_empty)))) =
       [SysMkdirAll ''/data/base/1/'' 493, SysOpenFile ''/data/base/1/16384'',
        SysCopy ''/data/base/1/16384'', SysFchmod ''/data/base/1/16384'' 420,
        SysClose ''/data/base/1/16384'', SysSync]"
  by code_simp

end
